theory Spec2Isabelle
  imports Main "HOL-Library.Word"
begin

section \<open>Material IO of Baikal (BaikalIO/material\_io.cpp)\<close>

text \<open>
  A shallow embedding of \<^verbatim>\<open>src/BaikalIO/material_io.cpp\<close>: the XML writer and reader of
  material graphs (\<^verbatim>\<open>MaterialIoXML\<close>), the dependency collector of
  \<^verbatim>\<open>MaterialIo::SaveMaterialsFromScene\<close> and the mapping utilities of \<^verbatim>\<open>MaterialIo\<close>.
  Objects held through \<^verbatim>\<open>shared_ptr\<close> live in an explicit store; a pointer is an address
  or null. Exceptions and crashes are values of type \<open>error\<close>.
\<close>

subsection \<open>Data model\<close>

text \<open>A \<^verbatim>\<open>shared_ptr\<close>: \<open>None\<close> is \<^verbatim>\<open>nullptr\<close>, \<open>Some a\<close> the object at address \<open>a\<close>.\<close>

type_synonym MaterialPtr = "nat option"
type_synonym TexturePtr = "nat option"

text \<open>\<^verbatim>\<open>reinterpret_cast<std::uint64_t>(p.get())\<close>: the address as a 64-bit word, 0 for null.\<close>

fun ptr_bits :: "nat option \<Rightarrow> 64 word" where
  "ptr_bits None = 0"
| "ptr_bits (Some a) = word_of_nat a"

text \<open>
  A \<^verbatim>\<open>float\<close> is its 32-bit pattern; how a float prints and parses belongs to the
  stream library and is a parameter of the model (see \<open>collab\<close> below).
\<close>

type_synonym float = "32 word"
type_synonym float4 = "float \<times> float \<times> float \<times> float"

datatype InputType = kFloat4 | kTexture | kMaterial

record InputValue =
  type :: InputType
  float_value :: float4
  tex_value :: TexturePtr
  mat_value :: MaterialPtr

text \<open>
  The bxdf types the source names; \<open>kOtherBxdf\<close> stands for the remaining enumerators of
  \<^verbatim>\<open>SingleBxdf::BxdfType\<close>, whose declaration is not part of the file.
\<close>

datatype BxdfType =
    kLambert
  | kMicrofacetGGX
  | kMicrofacetBeckmann
  | kMicrofacetRefractionGGX
  | kMicrofacetRefractionBeckmann
  | kOtherBxdf nat

datatype MaterialClass = SingleBxdf | MultiBxdf | UberV2Material

text \<open>
  A material object. The fields are named after the accessors the source calls; the
  dynamic class of the object is \<open>Class\<close>. \<open>GetBxdfType\<close> is the value the writer reads
  through the variable \<^verbatim>\<open>bxdf\<close>, and \<open>GetInputValue\<close> holds the value of every named input.
\<close>

record Material =
  GetName :: string
  IsThin :: bool
  Class :: MaterialClass
  GetBxdfType :: BxdfType
  GetType :: int
  IsLinkRefractionIOR :: bool
  isDoubleSided :: bool
  IsMultiscatter :: bool
  GetLayers :: "32 word"
  GetInputValue :: "string \<Rightarrow> InputValue"

text \<open>An element of a parsed document: tag, attributes in order, child elements in order.\<close>

datatype XMLElement =
  XMLElement (Tag: string) (Attributes: "(string \<times> string) list") (Children: "XMLElement list")

text \<open>\<^verbatim>\<open>XMLElement::Attribute(name)\<close>: the value, or a null pointer when there is none.\<close>

definition Attribute :: "XMLElement \<Rightarrow> string \<Rightarrow> string option" where
  "Attribute element n = map_of (Attributes element) n"

text \<open>
  \<open>rr_material\<close>, \<open>rr_input\<close> and \<open>rr_id\<close> are the fields \<^verbatim>\<open>material\<close>, \<^verbatim>\<open>input\<close> and \<^verbatim>\<open>id\<close>
  of \<^verbatim>\<open>MaterialIoXML::ResolveRequest\<close>.
\<close>

record ResolveRequest =
  rr_material :: nat
  rr_input :: string
  rr_id :: "64 word"

text \<open>
  The members of \<^verbatim>\<open>MaterialIoXML\<close>, followed by the part of the world its methods act on:
  the store of material objects with its allocator, and the calls made to \<^verbatim>\<open>ImageIo\<close>.
\<close>

record MaterialIoXML =
  m_tex2name :: "TexturePtr \<rightharpoonup> string"
  m_name2tex :: "string \<rightharpoonup> TexturePtr"
  m_id2mat :: "64 word \<rightharpoonup> MaterialPtr"
  m_resolve_requests :: "ResolveRequest list"
  m_base_path :: string
  heap :: "nat \<Rightarrow> Material"
  next_material :: nat
  next_texture :: nat
  saved_images :: "(string \<times> TexturePtr) list"
  loaded_images :: "(string \<times> nat) list"

text \<open>
  \<open>NullString\<close>: a \<^verbatim>\<open>std::string\<close> built from, or \<^verbatim>\<open>atoi\<close> applied to, the null pointer
  that \<^verbatim>\<open>Attribute\<close> returns for a missing attribute; the call does not survive it.
  \<open>AssertionFailed\<close>: the \<^verbatim>\<open>assert\<close> of \<^verbatim>\<open>WriteMaterial\<close>.
  \<open>IoFailure\<close>: a call of the image store that fails; it ends the call of the reader or
  writer that made it.
\<close>

datatype error =
    UnsupportedInputType
  | UnsupportedMaterialType
  | NullString
  | AssertionFailed
  | IoFailure

text \<open>
  What the file calls and does not define: the stream operators on floats, the conversions
  between bxdf types and their names, and the image store, of which the model needs to know
  on which paths a load and a save succeed.
\<close>

record collab =
  show_float :: "float \<Rightarrow> string"
  scan_float4 :: "string \<Rightarrow> float4"
  BxdfToString :: "BxdfType \<Rightarrow> string"
  StringToBxdf :: "string \<Rightarrow> BxdfType"
  can_load :: "string \<Rightarrow> bool"
  can_save :: "string \<Rightarrow> bool"

subsection \<open>Numbers as text\<close>

definition digit_char :: "nat \<Rightarrow> char" where
  "digit_char d = char_of (48 + d)"

fun show_nat :: "nat \<Rightarrow> string" where
  "show_nat n = (if n < 10 then [digit_char n] else show_nat (n div 10) @ [digit_char (n mod 10)])"

declare show_nat.simps [simp del]

definition show_int :: "int \<Rightarrow> string" where
  "show_int i = (if i < 0 then CHR ''-'' # show_nat (nat (- i)) else show_nat (nat i))"

definition show_bool :: "bool \<Rightarrow> string" where
  "show_bool b = (if b then ''true'' else ''false'')"

definition isspace :: "char \<Rightarrow> bool" where
  "isspace c = (c = CHR '' '' \<or> (9 \<le> (of_char c :: nat) \<and> (of_char c :: nat) \<le> 13))"

definition isdigit :: "char \<Rightarrow> bool" where
  "isdigit c = (48 \<le> (of_char c :: nat) \<and> (of_char c :: nat) \<le> 57)"

fun digits_value :: "nat \<Rightarrow> string \<Rightarrow> nat" where
  "digits_value acc [] = acc"
| "digits_value acc (c # cs) =
     (if isdigit c then digits_value (acc * 10 + ((of_char c :: nat) - 48)) cs else acc)"

text \<open>
  \<^verbatim>\<open>strtol\<close> in base 10: leading white space, an optional sign, then decimal digits up to
  the first other character; a value outside the range of \<^verbatim>\<open>long\<close> (64 bits) is replaced
  by the nearest bound.
\<close>

definition strtol :: "string \<Rightarrow> int" where
  "strtol str =
     (let written =
        (case dropWhile isspace str of
           [] \<Rightarrow> 0
         | c # cs \<Rightarrow>
             if c = CHR ''-'' then - int (digits_value 0 cs)
             else if c = CHR ''+'' then int (digits_value 0 cs)
             else int (digits_value 0 (c # cs)))
      in max (- 9223372036854775808) (min 9223372036854775807 written))"

text \<open>
  \<^verbatim>\<open>std::atoi\<close> returns an \<^verbatim>\<open>int\<close> of 32 bits. The C standard leaves its value undefined
  when the number written is out of range; the model follows the C library of 64-bit Linux,
  where \<^verbatim>\<open>atoi\<close> is \<^verbatim>\<open>(int) strtol(str, NULL, 10)\<close>: the low 32 bits of the \<^verbatim>\<open>long\<close>, read
  as a signed number. So \<^verbatim>\<open>4294967297\<close> gives 1 and \<^verbatim>\<open>2147483648\<close> gives -2147483648.
\<close>

definition atoi :: "string \<Rightarrow> int" where
  "atoi str = sint (word_of_int (strtol str) :: 32 word)"

text \<open>
  \<^verbatim>\<open>static_cast<std::uint64_t>(std::atoi(...))\<close>: sign extension of the \<^verbatim>\<open>int\<close> to 64
  bits.
\<close>

definition atoi_u64 :: "string \<Rightarrow> 64 word" where
  "atoi_u64 str = word_of_int (atoi str)"

text \<open>
  \<^verbatim>\<open>(int)(reinterpret_cast<std::uint64_t>(p.get()))\<close>: the low 32 bits of the address, read
  as a signed number.
\<close>

definition ptr_int :: "nat option \<Rightarrow> int" where
  "ptr_int p = sint (ucast (ptr_bits p) :: 32 word)"

subsection \<open>Base path of a file name\<close>

definition find_last_of :: "string \<Rightarrow> char \<Rightarrow> nat option" where
  "find_last_of str c =
     (if c \<in> set str then Some (length str - 1 - length (takeWhile (\<lambda>x. x \<noteq> c) (rev str)))
      else None)"

text \<open>The head of \<^verbatim>\<open>SaveMaterials\<close> and \<^verbatim>\<open>LoadMaterials\<close> that sets \<^verbatim>\<open>m_base_path\<close>.\<close>

definition base_path_of :: "string \<Rightarrow> string" where
  "base_path_of filename =
     (let slash = (case find_last_of filename CHR ''/'' of
                     None \<Rightarrow> find_last_of filename (CHR 0x5C)
                   | Some i \<Rightarrow> Some i)
      in case slash of
           Some i \<Rightarrow> take (i + 1) filename
         | None \<Rightarrow> [])"

subsection \<open>The material capability and the image store\<close>

text \<open>
  Modelled from the spec: \<^verbatim>\<open>Material::SetInputValue\<close> (three overloads), declared in
  \<^verbatim>\<open>SceneGraph/material.h\<close>, which is not part of the file. The spec gives a material the
  capability "get/set named input": setting stores the value and its type under the name.
\<close>

definition set_float4 :: "string \<Rightarrow> float4 \<Rightarrow> Material \<Rightarrow> Material" where
  "set_float4 nm v m =
     m\<lparr>GetInputValue := (GetInputValue m)(nm := (GetInputValue m nm)\<lparr>type := kFloat4, float_value := v\<rparr>)\<rparr>"

definition set_texture :: "string \<Rightarrow> TexturePtr \<Rightarrow> Material \<Rightarrow> Material" where
  "set_texture nm t m =
     m\<lparr>GetInputValue := (GetInputValue m)(nm := (GetInputValue m nm)\<lparr>type := kTexture, tex_value := t\<rparr>)\<rparr>"

definition set_material :: "string \<Rightarrow> MaterialPtr \<Rightarrow> Material \<Rightarrow> Material" where
  "set_material nm p m =
     m\<lparr>GetInputValue := (GetInputValue m)(nm := (GetInputValue m nm)\<lparr>type := kMaterial, mat_value := p\<rparr>)\<rparr>"

text \<open>A method call through a non-null \<^verbatim>\<open>Material::Ptr\<close>: the object at that address changes.\<close>

definition on_material :: "nat \<Rightarrow> (Material \<Rightarrow> Material) \<Rightarrow> MaterialIoXML \<Rightarrow> MaterialIoXML" where
  "on_material p f s = s\<lparr>heap := (heap s)(p := f (heap s p))\<rparr>"

text \<open>
  Modelled from the spec: the state of a material that \<^verbatim>\<open>SingleBxdf::Create\<close> or
  \<^verbatim>\<open>MultiBxdf::Create\<close> returns (their definitions are not part of the file): no name,
  not thin, every input a zero float4.
\<close>

definition default_input :: InputValue where
  "default_input = \<lparr>type = kFloat4, float_value = (0, 0, 0, 0), tex_value = None, mat_value = None\<rparr>"

definition new_material :: "MaterialClass \<Rightarrow> Material" where
  "new_material c =
     \<lparr>GetName = [], IsThin = False, Class = c, GetBxdfType = kLambert, GetType = 0,
      IsLinkRefractionIOR = False, isDoubleSided = False, IsMultiscatter = False,
      GetLayers = 0, GetInputValue = (\<lambda>_. default_input)\<rparr>"

text \<open>\<^verbatim>\<open>std::make_shared\<close>: a new object at an address not in use.\<close>

definition Create :: "MaterialClass \<Rightarrow> MaterialIoXML \<Rightarrow> nat \<times> MaterialIoXML" where
  "Create c s =
     (next_material s,
      s\<lparr>heap := (heap s)(next_material s := new_material c),
        next_material := Suc (next_material s)\<rparr>)"

text \<open>
  Modelled from the spec: the image store, \<^verbatim>\<open>ImageIo::LoadImage\<close> and
  \<^verbatim>\<open>ImageIo::SaveImage\<close> of \<^verbatim>\<open>image_io.h\<close>, which is not part of the file. The spec
  gives it the interface "save(path, asset); load(path) -> asset" and makes an I/O failure
  fatal to the call: a load or save on a path where the store fails is the error
  \<open>IoFailure\<close>. A load that succeeds returns a new texture object for every call; the calls
  that succeed are recorded in order.
\<close>

definition LoadImage ::
  "collab \<Rightarrow> string \<Rightarrow> MaterialIoXML \<Rightarrow> error + TexturePtr \<times> MaterialIoXML" where
  "LoadImage C path s =
     (if can_load C path then
        Inr (Some (next_texture s),
             s\<lparr>loaded_images := loaded_images s @ [(path, next_texture s)],
               next_texture := Suc (next_texture s)\<rparr>)
      else Inl IoFailure)"

definition SaveImage ::
  "collab \<Rightarrow> string \<Rightarrow> TexturePtr \<Rightarrow> MaterialIoXML \<Rightarrow> error + MaterialIoXML" where
  "SaveImage C path t s =
     (if can_save C path then Inr (s\<lparr>saved_images := saved_images s @ [(path, t)]\<rparr>)
      else Inl IoFailure)"

subsection \<open>The writer\<close>

text \<open>The name under which a texture is persisted: its address in decimal, then \<^verbatim>\<open>.jpg\<close>.\<close>

definition tex_name :: "TexturePtr \<Rightarrow> string" where
  "tex_name t = show_nat (unat (ptr_bits t)) @ ''.jpg''"

definition Float4ToString :: "collab \<Rightarrow> float4 \<Rightarrow> string" where
  "Float4ToString C v =
     (case v of (x, y, z, w) \<Rightarrow>
        show_float C x @ '' '' @ show_float C y @ '' '' @ show_float C z @ '' '' @ show_float C w)"

text \<open>\<^verbatim>\<open>MaterialIoXML::WriteInput\<close>: the element printed, and the state after the call.\<close>

definition WriteInput ::
  "collab \<Rightarrow> string \<Rightarrow> InputValue \<Rightarrow> MaterialIoXML \<Rightarrow> error + XMLElement \<times> MaterialIoXML" where
  "WriteInput C nm v s =
     (if type v = kFloat4 then
        Inr (XMLElement ''Input''
               [(''name'', nm), (''type'', ''float4''), (''value'', Float4ToString C (float_value v))] [],
             s)
      else if type v = kTexture then
        (case m_tex2name s (tex_value v) of
           Some found \<Rightarrow>
             Inr (XMLElement ''Input'' [(''name'', nm), (''type'', ''texture''), (''value'', found)] [], s)
         | None \<Rightarrow>
             (let oss = tex_name (tex_value v) in
              case SaveImage C (m_base_path s @ oss) (tex_value v) s of
                Inl e \<Rightarrow> Inl e
              | Inr s1 \<Rightarrow>
                  Inr (XMLElement ''Input'' [(''name'', nm), (''type'', ''texture''), (''value'', oss)] [],
                       s1\<lparr>m_tex2name := (m_tex2name s1)(tex_value v \<mapsto> oss)\<rparr>)))
      else
        Inr (XMLElement ''Input''
               [(''name'', nm), (''type'', ''material''), (''value'', show_int (ptr_int (mat_value v)))] [],
             s))"

definition is_microfacet :: "BxdfType \<Rightarrow> bool" where
  "is_microfacet t =
     (t = kMicrofacetGGX \<or> t = kMicrofacetBeckmann \<or>
      t = kMicrofacetRefractionGGX \<or> t = kMicrofacetRefractionBeckmann)"

text \<open>
  The inputs \<^verbatim>\<open>WriteMaterial\<close> hands to \<^verbatim>\<open>WriteInput\<close>, in the order of the calls:
  albedo; normal if it has a texture, else bump if that has one; ior; fresnel; roughness for
  the microfacet types. The source reads them through \<^verbatim>\<open>bxdf\<close>, a name it does not
  declare; the model reads the material being written.
\<close>

definition inputs_to_write :: "Material \<Rightarrow> (string \<times> InputValue) list" where
  "inputs_to_write m =
     [(''albedo'', GetInputValue m ''albedo'')] @
     (if tex_value (GetInputValue m ''normal'') \<noteq> None
        then [(''normal'', GetInputValue m ''normal'')]
      else if tex_value (GetInputValue m ''bump'') \<noteq> None
        then [(''bump'', GetInputValue m ''bump'')]
      else []) @
     [(''ior'', GetInputValue m ''ior''), (''fresnel'', GetInputValue m ''fresnel'')] @
     (if is_microfacet (GetBxdfType m) then [(''roughness'', GetInputValue m ''roughness'')] else [])"

fun write_inputs ::
  "collab \<Rightarrow> (string \<times> InputValue) list \<Rightarrow> MaterialIoXML \<Rightarrow>
     error + XMLElement list \<times> MaterialIoXML" where
  "write_inputs C [] s = Inr ([], s)"
| "write_inputs C ((nm, v) # rest) s =
     (case WriteInput C nm v s of
        Inl e \<Rightarrow> Inl e
      | Inr (el, s1) \<Rightarrow>
          (case write_inputs C rest s1 of
             Inl e \<Rightarrow> Inl e
           | Inr (els, s2) \<Rightarrow> Inr (el # els, s2)))"

text \<open>
  \<^verbatim>\<open>MaterialIoXML::WriteMaterial\<close>. The attributes are printed before the first child
  element. A material that is not an \<^verbatim>\<open>UberV2Material\<close> meets the \<^verbatim>\<open>assert\<close>.
\<close>

definition WriteMaterial ::
  "collab \<Rightarrow> nat \<Rightarrow> MaterialIoXML \<Rightarrow> error + XMLElement \<times> MaterialIoXML" where
  "WriteMaterial C material s =
     (let m = heap s material in
      if Class m = UberV2Material then
        (case write_inputs C (inputs_to_write m) s of
           Inl e \<Rightarrow> Inl e
         | Inr (els, s1) \<Rightarrow>
             Inr (XMLElement ''Material''
                    [(''name'', GetName m),
                     (''id'', show_int (ptr_int (Some material))),
                     (''thin'', show_bool (IsThin m)),
                     (''refraction_link_ior'', show_bool (IsLinkRefractionIOR m)),
                     (''emission_doublesided'', show_bool (isDoubleSided m)),
                     (''sss_multyscatter'', show_bool (IsMultiscatter m)),
                     (''layers'', show_nat (unat (GetLayers m))),
                     (''bxdf'', BxdfToString C (GetBxdfType m))]
                    els,
                  s1))
      else Inl AssertionFailed)"

text \<open>The loop of \<^verbatim>\<open>SaveMaterials\<close>; an item that is not a material is skipped.\<close>

fun write_materials ::
  "collab \<Rightarrow> MaterialPtr list \<Rightarrow> MaterialIoXML \<Rightarrow> error + XMLElement list \<times> MaterialIoXML" where
  "write_materials C [] s = Inr ([], s)"
| "write_materials C (None # items) s = write_materials C items s"
| "write_materials C (Some material # items) s =
     (case WriteMaterial C material s of
        Inl e \<Rightarrow> Inl e
      | Inr (el, s1) \<Rightarrow>
          (case write_materials C items s1 of
             Inl e \<Rightarrow> Inl e
           | Inr (els, s2) \<Rightarrow> Inr (el # els, s2)))"

text \<open>
  \<^verbatim>\<open>MaterialIoXML::SaveMaterials\<close>: the items of the iterator in order; the result is the
  document saved under the file name, and the state after the call.
\<close>

definition SaveMaterials ::
  "collab \<Rightarrow> string \<Rightarrow> MaterialPtr list \<Rightarrow> MaterialIoXML \<Rightarrow>
     error + XMLElement list \<times> MaterialIoXML" where
  "SaveMaterials C filename mat_iter s =
     write_materials C mat_iter (s\<lparr>m_base_path := base_path_of filename, m_tex2name := Map.empty\<rparr>)"

subsection \<open>The reader\<close>

text \<open>
  \<^verbatim>\<open>std::set<ResolveRequest>::emplace\<close>. The set is ordered by \<^verbatim>\<open>operator<\<close>, which
  compares the target ids only: the elements are kept in ascending id, and a request is not
  inserted when the set holds one that is neither less nor greater.
\<close>

fun set_emplace :: "ResolveRequest \<Rightarrow> ResolveRequest list \<Rightarrow> ResolveRequest list" where
  "set_emplace r [] = [r]"
| "set_emplace r (q # qs) =
     (if rr_id r < rr_id q then r # q # qs
      else if rr_id q < rr_id r then q # set_emplace r qs
      else q # qs)"

text \<open>\<^verbatim>\<open>MaterialIoXML::LoadInput\<close>.\<close>

definition LoadInput ::
  "collab \<Rightarrow> nat \<Rightarrow> XMLElement \<Rightarrow> MaterialIoXML \<Rightarrow> error + MaterialIoXML" where
  "LoadInput C material element s =
     (case Attribute element ''type'' of
        None \<Rightarrow> Inl NullString
      | Some ty \<Rightarrow>
     (case Attribute element ''name'' of
        None \<Rightarrow> Inl NullString
      | Some nm \<Rightarrow>
          if ty = ''float4'' then
            (case Attribute element ''value'' of
               None \<Rightarrow> Inl NullString
             | Some v \<Rightarrow> Inr (on_material material (set_float4 nm (scan_float4 C v)) s))
          else if ty = ''texture'' then
            (case Attribute element ''value'' of
               None \<Rightarrow> Inl NullString
             | Some filename \<Rightarrow>
                 (case m_name2tex s filename of
                    Some found \<Rightarrow> Inr (on_material material (set_texture nm found) s)
                  | None \<Rightarrow>
                      (case LoadImage C (m_base_path s @ filename) s of
                         Inl e \<Rightarrow> Inl e
                       | Inr (texture, s1) \<Rightarrow>
                           (let s2 = on_material material (set_texture nm texture) s1
                            in Inr (s2\<lparr>m_name2tex := (m_name2tex s2)(nm \<mapsto> texture)\<rparr>)))))
          else if ty = ''material'' then
            (case Attribute element ''value'' of
               None \<Rightarrow> Inl NullString
             | Some v \<Rightarrow>
                 (let i = atoi_u64 v in
                  case m_id2mat s i of
                    Some found \<Rightarrow> Inr (on_material material (set_material nm found) s)
                  | None \<Rightarrow>
                      Inr (s\<lparr>m_resolve_requests :=
                               set_emplace \<lparr>rr_material = material, rr_input = nm, rr_id = i\<rparr>
                                 (m_resolve_requests s)\<rparr>)))
          else Inl UnsupportedInputType))"

text \<open>The loop of \<^verbatim>\<open>LoadMaterial\<close> over the child elements.\<close>

fun load_inputs ::
  "collab \<Rightarrow> nat \<Rightarrow> XMLElement list \<Rightarrow> MaterialIoXML \<Rightarrow> error + MaterialIoXML" where
  "load_inputs C material [] s = Inr s"
| "load_inputs C material (input # rest) s =
     (case LoadInput C material input s of
        Inl e \<Rightarrow> Inl e
      | Inr s1 \<Rightarrow> load_inputs C material rest s1)"

text \<open>
  The first half of \<^verbatim>\<open>LoadMaterial\<close>: the attributes are read and the object of the kind
  named by \<^verbatim>\<open>type\<close> is created.
\<close>

definition create_material ::
  "collab \<Rightarrow> XMLElement \<Rightarrow> string \<Rightarrow> MaterialIoXML \<Rightarrow> error + nat \<times> MaterialIoXML" where
  "create_material C element ty s =
     (if ty = ''simple'' then
        (case Attribute element ''bxdf'' of
           None \<Rightarrow> Inl NullString
         | Some b \<Rightarrow>
             (case Create SingleBxdf s of
                (bxdf, s1) \<Rightarrow>
                  Inr (bxdf, on_material bxdf (\<lambda>m. m\<lparr>GetBxdfType := StringToBxdf C b\<rparr>) s1)))
      else if ty = ''blend'' then
        (case Attribute element ''blend_type'' of
           None \<Rightarrow> Inl NullString
         | Some b \<Rightarrow>
             (case Create MultiBxdf s of
                (blend, s1) \<Rightarrow>
                  Inr (blend, on_material blend (\<lambda>m. m\<lparr>GetType := atoi b\<rparr>) s1)))
      else Inl UnsupportedMaterialType)"

text \<open>\<^verbatim>\<open>MaterialIoXML::LoadMaterial\<close>: the new material, registered under its id last.\<close>

definition LoadMaterial ::
  "collab \<Rightarrow> XMLElement \<Rightarrow> MaterialIoXML \<Rightarrow> error + nat \<times> MaterialIoXML" where
  "LoadMaterial C element s =
     (case Attribute element ''name'' of
        None \<Rightarrow> Inl NullString
      | Some nm \<Rightarrow>
     (case Attribute element ''type'' of
        None \<Rightarrow> Inl NullString
      | Some ty \<Rightarrow>
     (let thin = (case Attribute element ''thin'' of None \<Rightarrow> [] | Some t \<Rightarrow> t) in
      case Attribute element ''id'' of
        None \<Rightarrow> Inl NullString
      | Some idstr \<Rightarrow>
     (let i = atoi_u64 idstr in
      case create_material C element ty s of
        Inl e \<Rightarrow> Inl e
      | Inr (material, s1) \<Rightarrow>
          (let s2 = on_material material (\<lambda>m. m\<lparr>GetName := nm\<rparr>) s1;
               s3 = on_material material (\<lambda>m. m\<lparr>IsThin := (thin = ''true'')\<rparr>) s2
           in case load_inputs C material (Children element) s3 of
                Inl e \<Rightarrow> Inl e
              | Inr s4 \<Rightarrow>
                  Inr (material, s4\<lparr>m_id2mat := (m_id2mat s4)(i \<mapsto> Some material)\<rparr>))))))"

text \<open>The first loop of \<^verbatim>\<open>LoadMaterials\<close>: every top-level element, in document order.\<close>

fun load_elements ::
  "collab \<Rightarrow> XMLElement list \<Rightarrow> MaterialIoXML \<Rightarrow> error + nat set \<times> MaterialIoXML" where
  "load_elements C [] s = Inr ({}, s)"
| "load_elements C (element # rest) s =
     (case LoadMaterial C element s of
        Inl e \<Rightarrow> Inl e
      | Inr (material, s1) \<Rightarrow>
          (case load_elements C rest s1 of
             Inl e \<Rightarrow> Inl e
           | Inr (materials, s2) \<Rightarrow> Inr (insert material materials, s2)))"

text \<open>
  One round of the second loop: \<^verbatim>\<open>i.material->SetInputValue(i.input, m_id2mat[i.id])\<close>.
  \<^verbatim>\<open>operator[]\<close> of \<^verbatim>\<open>std::map\<close> inserts a null pointer under a key that is absent.
\<close>

definition resolve :: "ResolveRequest \<Rightarrow> MaterialIoXML \<Rightarrow> MaterialIoXML" where
  "resolve i s =
     (case m_id2mat s (rr_id i) of
        Some found \<Rightarrow> on_material (rr_material i) (set_material (rr_input i) found) s
      | None \<Rightarrow>
          on_material (rr_material i) (set_material (rr_input i) None)
            (s\<lparr>m_id2mat := (m_id2mat s)(rr_id i \<mapsto> None)\<rparr>))"

text \<open>The second loop: the requests in the order of the set.\<close>

definition fix_up :: "MaterialIoXML \<Rightarrow> MaterialIoXML" where
  "fix_up s = fold resolve (m_resolve_requests s) s"

text \<open>The head of \<^verbatim>\<open>LoadMaterials\<close>: the three tables are cleared, the base path is set.\<close>

definition begin_load :: "string \<Rightarrow> MaterialIoXML \<Rightarrow> MaterialIoXML" where
  "begin_load file_name s =
     s\<lparr>m_id2mat := Map.empty, m_name2tex := Map.empty, m_resolve_requests := [],
       m_base_path := base_path_of file_name\<rparr>"

text \<open>
  \<^verbatim>\<open>MaterialIoXML::LoadMaterials\<close>, on the elements of the document that
  \<^verbatim>\<open>XMLDocument::LoadFile\<close> has parsed. An exception leaves no result.
\<close>

definition LoadMaterials ::
  "collab \<Rightarrow> string \<Rightarrow> XMLElement list \<Rightarrow> MaterialIoXML \<Rightarrow> error + nat set \<times> MaterialIoXML" where
  "LoadMaterials C file_name doc s =
     (case load_elements C doc (begin_load file_name s) of
        Inl e \<Rightarrow> Inl e
      | Inr (materials, s1) \<Rightarrow> Inr (materials, fix_up s1))"

subsection \<open>The dependency collector\<close>

text \<open>
  The loop of the lambda in \<^verbatim>\<open>SaveMaterialsFromScene\<close>. \<open>deps m\<close> is the sequence that
  the iterator of \<^verbatim>\<open>m->CreateMaterialIterator()\<close> enumerates; the head of the list is the
  top of the stack. The loop may run forever: then the value is \<open>None\<close>.
\<close>

partial_function (option) drain ::
  "(nat \<Rightarrow> nat list) \<Rightarrow> nat list \<Rightarrow> nat set \<Rightarrow> nat set option" where
  "drain deps material_stack mats =
     (case material_stack of
        [] \<Rightarrow> Some mats
      | m # rest \<Rightarrow> drain deps (fold (#) (deps m) rest) (insert m mats))"

text \<open>The lambda, on the material of the shape it is given.\<close>

definition collect_shape :: "(nat \<Rightarrow> nat list) \<Rightarrow> MaterialPtr \<Rightarrow> nat set option" where
  "collect_shape deps material =
     drain deps (case material of None \<Rightarrow> [] | Some m \<Rightarrow> [m]) {}"

subsection \<open>The mapping utilities\<close>

text \<open>
  \<^verbatim>\<open>MaterialIo::MaterialMap\<close> is declared in \<^verbatim>\<open>material_io.h\<close>, which is not part of the
  file; the calls made on it (\<^verbatim>\<open>emplace\<close>, \<^verbatim>\<open>find\<close>, \<^verbatim>\<open>cend\<close>) are those of a
  \<^verbatim>\<open>std::map\<close> from names to names. \<^verbatim>\<open>emplace\<close> leaves the map as it is when the key is
  present.
\<close>

type_synonym MaterialMap = "string \<rightharpoonup> string"

definition map_emplace :: "'k \<Rightarrow> 'v \<Rightarrow> ('k \<rightharpoonup> 'v) \<Rightarrow> ('k \<rightharpoonup> 'v)" where
  "map_emplace k v m = (case m k of None \<Rightarrow> m(k \<mapsto> v) | Some _ \<Rightarrow> m)"

fun load_mapping :: "XMLElement list \<Rightarrow> MaterialMap \<Rightarrow> error + MaterialMap" where
  "load_mapping [] mp = Inr mp"
| "load_mapping (element # rest) mp =
     (case Attribute element ''from'' of
        None \<Rightarrow> Inl NullString
      | Some from \<Rightarrow>
          (case Attribute element ''to'' of
             None \<Rightarrow> Inl NullString
           | Some to \<Rightarrow> load_mapping rest (map_emplace from to mp)))"

text \<open>\<^verbatim>\<open>MaterialIo::LoadMaterialMapping\<close>, on the elements of the parsed file.\<close>

definition LoadMaterialMapping :: "XMLElement list \<Rightarrow> error + MaterialMap" where
  "LoadMaterialMapping doc = load_mapping doc Map.empty"

text \<open>A shape, as far as the file uses it: its material reference.\<close>

record Shape =
  GetMaterial :: MaterialPtr

text \<open>The first loop of \<^verbatim>\<open>ReplaceSceneMaterials\<close>: \<^verbatim>\<open>name2mat[name] = material\<close>.\<close>

definition build_name2mat :: "(nat \<Rightarrow> Material) \<Rightarrow> nat list \<Rightarrow> (string \<rightharpoonup> nat)" where
  "build_name2mat h iterator = fold (\<lambda>material tbl. tbl(GetName (h material) \<mapsto> material)) iterator Map.empty"

text \<open>The body of the second loop, on one shape.\<close>

definition replace_shape ::
  "(nat \<Rightarrow> Material) \<Rightarrow> (string \<rightharpoonup> nat) \<Rightarrow> MaterialMap \<Rightarrow> Shape \<Rightarrow> Shape" where
  "replace_shape h name2mat mapping shape =
     (case GetMaterial shape of
        None \<Rightarrow> shape
      | Some material \<Rightarrow>
          (case mapping (GetName (h material)) of
             None \<Rightarrow> shape
           | Some to \<Rightarrow>
               (case name2mat to of
                  None \<Rightarrow> shape
                | Some found \<Rightarrow> shape\<lparr>GetMaterial := Some found\<rparr>)))"

text \<open>
  \<^verbatim>\<open>MaterialIo::ReplaceSceneMaterials\<close>: the shapes of the scene after the call. The
  iterator runs over the loaded materials; no statement of the function throws.
\<close>

definition ReplaceSceneMaterials ::
  "(nat \<Rightarrow> Material) \<Rightarrow> Shape list \<Rightarrow> nat list \<Rightarrow> MaterialMap \<Rightarrow> Shape list" where
  "ReplaceSceneMaterials h scene iterator mapping =
     map (replace_shape h (build_name2mat h iterator) mapping) scene"

subsection \<open>Notions used to state the properties\<close>

text \<open>The material reference graph: an edge from a material to each of its dependencies.\<close>

definition dep_rel :: "(nat \<Rightarrow> nat list) \<Rightarrow> (nat \<times> nat) set" where
  "dep_rel deps = {(m, d). d \<in> set (deps m)}"

definition reachable :: "(nat \<Rightarrow> nat list) \<Rightarrow> nat set \<Rightarrow> nat set" where
  "reachable deps roots = (dep_rel deps)\<^sup>* `` roots"

text \<open>Two materials that depend on each other, and a diamond.\<close>

fun cyclic_deps :: "nat \<Rightarrow> nat list" where
  "cyclic_deps m = (if m = 1 then [2] else if m = 2 then [1] else [])"

fun diamond_deps :: "nat \<Rightarrow> nat list" where
  "diamond_deps m = (if m = 1 then [2, 3] else if m = 2 then [4] else if m = 3 then [4] else [])"

text \<open>The pair of names a mapping record declares, if it has both attributes.\<close>

definition mapping_pair :: "XMLElement \<Rightarrow> (string \<times> string) option" where
  "mapping_pair element =
     (case Attribute element ''from'' of
        None \<Rightarrow> None
      | Some from \<Rightarrow> (case Attribute element ''to'' of None \<Rightarrow> None | Some to \<Rightarrow> Some (from, to)))"

text \<open>What a loaded mapping binds a name to; nothing when the load failed.\<close>

definition bound_to :: "error + MaterialMap \<Rightarrow> string \<Rightarrow> string option" where
  "bound_to res k = (case res of Inl e \<Rightarrow> None | Inr mp \<Rightarrow> mp k)"

text \<open>
  The condition of the specification for rebinding a shape, in its words: the name of the
  shape's current material is a mapping key whose target name exists in the loaded node set.
  The value is that target name.
\<close>

definition rebind_target ::
  "(nat \<Rightarrow> Material) \<Rightarrow> nat list \<Rightarrow> MaterialMap \<Rightarrow> Shape \<Rightarrow> string option" where
  "rebind_target h loaded mapping shape =
     (case GetMaterial shape of
        None \<Rightarrow> None
      | Some material \<Rightarrow>
          (case mapping (GetName (h material)) of
             None \<Rightarrow> None
           | Some to \<Rightarrow> if to \<in> set (map (\<lambda>p. GetName (h p)) loaded) then Some to else None))"

text \<open>A store for examples: the material at address 1 is named old, at 2 new.\<close>

definition named_material :: "string \<Rightarrow> Material" where
  "named_material nm = (new_material UberV2Material)\<lparr>GetName := nm\<rparr>"

fun example_heap :: "nat \<Rightarrow> Material" where
  "example_heap a = named_material (if a = 1 then ''old'' else if a = 2 then ''new'' else ''other'')"

text \<open>A record declares the id \<open>i\<close>; an input record is material-typed with target \<open>i\<close>.\<close>

definition declares :: "64 word \<Rightarrow> XMLElement \<Rightarrow> bool" where
  "declares i element = (map_option atoi_u64 (Attribute element ''id'') = Some i)"

definition material_input_to :: "64 word \<Rightarrow> XMLElement \<Rightarrow> bool" where
  "material_input_to i input =
     (Attribute input ''type'' = Some ''material'' \<and>
      map_option atoi_u64 (Attribute input ''value'') = Some i)"

text \<open>
  The request that \<^verbatim>\<open>LoadInput\<close> hands to \<^verbatim>\<open>emplace\<close> for an input record, under a given
  id table: one for a material-typed input whose target the table lacks, none otherwise.
\<close>

definition pending :: "(64 word \<rightharpoonup> MaterialPtr) \<Rightarrow> nat \<Rightarrow> XMLElement \<Rightarrow> ResolveRequest list" where
  "pending tbl material input =
     (case Attribute input ''type'' of
        None \<Rightarrow> []
      | Some ty \<Rightarrow>
     (case Attribute input ''name'' of
        None \<Rightarrow> []
      | Some nm \<Rightarrow>
     (case Attribute input ''value'' of
        None \<Rightarrow> []
      | Some v \<Rightarrow>
          if ty = ''material'' \<and> tbl (atoi_u64 v) = None
          then [\<lparr>rr_material = material, rr_input = nm, rr_id = atoi_u64 v\<rparr>]
          else [])))"

text \<open>
  The part of \<^verbatim>\<open>LoadMaterial\<close> before its loop over the inputs: the new node, the id the
  record declares, and the state in which the first input is read.
\<close>

definition start_material ::
  "collab \<Rightarrow> XMLElement \<Rightarrow> MaterialIoXML \<Rightarrow> error + nat \<times> 64 word \<times> MaterialIoXML" where
  "start_material C element s =
     (case Attribute element ''name'' of
        None \<Rightarrow> Inl NullString
      | Some nm \<Rightarrow>
     (case Attribute element ''type'' of
        None \<Rightarrow> Inl NullString
      | Some ty \<Rightarrow>
     (let thin = (case Attribute element ''thin'' of None \<Rightarrow> [] | Some t \<Rightarrow> t) in
      case Attribute element ''id'' of
        None \<Rightarrow> Inl NullString
      | Some idstr \<Rightarrow>
     (case create_material C element ty s of
        Inl e \<Rightarrow> Inl e
      | Inr (material, s1) \<Rightarrow>
          Inr (material, atoi_u64 idstr,
               on_material material (\<lambda>m. m\<lparr>IsThin := (thin = ''true'')\<rparr>)
                 (on_material material (\<lambda>m. m\<lparr>GetName := nm\<rparr>) s1))))))"

text \<open>What \<^verbatim>\<open>m_id2mat[i]\<close> evaluates to: the entry, or null when there is none.\<close>

definition lookup_or_null :: "(64 word \<rightharpoonup> MaterialPtr) \<Rightarrow> 64 word \<Rightarrow> MaterialPtr" where
  "lookup_or_null tbl i = (case tbl i of None \<Rightarrow> None | Some found \<Rightarrow> found)"

text \<open>
  Records the reader accepts, for an image store and a base path: the attributes it reads
  are present, the kind tag and the input types are among those it supports, and the image
  store can load the resource of every texture input.
\<close>

definition input_ok :: "collab \<Rightarrow> string \<Rightarrow> XMLElement \<Rightarrow> bool" where
  "input_ok C base input =
     (Attribute input ''name'' \<noteq> None \<and>
      (case Attribute input ''value'' of
         None \<Rightarrow> False
       | Some v \<Rightarrow>
           Attribute input ''type'' = Some ''float4'' \<or>
           (Attribute input ''type'' = Some ''texture'' \<and> can_load C (base @ v)) \<or>
           Attribute input ''type'' = Some ''material''))"

definition record_ok :: "collab \<Rightarrow> string \<Rightarrow> XMLElement \<Rightarrow> bool" where
  "record_ok C base element =
     (Attribute element ''name'' \<noteq> None \<and> Attribute element ''id'' \<noteq> None \<and>
      ((Attribute element ''type'' = Some ''simple'' \<and> Attribute element ''bxdf'' \<noteq> None) \<or>
       (Attribute element ''type'' = Some ''blend'' \<and> Attribute element ''blend_type'' \<noteq> None)) \<and>
      list_all (input_ok C base) (Children element))"

text \<open>What a load left behind, when it returned: an input, the queue, the nodes, the images.\<close>

definition input_after ::
  "error + nat set \<times> MaterialIoXML \<Rightarrow> nat \<Rightarrow> string \<Rightarrow> InputValue option" where
  "input_after res p nm =
     (case res of Inl e \<Rightarrow> None | Inr (ms, s) \<Rightarrow> Some (GetInputValue (heap s p) nm))"

definition requests_after :: "error + nat set \<times> MaterialIoXML \<Rightarrow> ResolveRequest list option" where
  "requests_after res = (case res of Inl e \<Rightarrow> None | Inr (ms, s) \<Rightarrow> Some (m_resolve_requests s))"

definition nodes_after :: "error + nat set \<times> MaterialIoXML \<Rightarrow> nat set option" where
  "nodes_after res = (case res of Inl e \<Rightarrow> None | Inr (ms, s) \<Rightarrow> Some ms)"

definition images_loaded_after ::
  "error + nat set \<times> MaterialIoXML \<Rightarrow> (string \<times> nat) list option" where
  "images_loaded_after res = (case res of Inl e \<Rightarrow> None | Inr (ms, s) \<Rightarrow> Some (loaded_images s))"

text \<open>
  Examples: collaborators, with an image store that fails on one path only; a store with
  two UberV2 materials that share the texture at address 7; an object of the class before any call, whose next new material has address 10;
  records of a document.
\<close>

definition example_collab :: collab where
  "example_collab =
     \<lparr>show_float = (\<lambda>_. ''0''), scan_float4 = (\<lambda>_. (0, 0, 0, 0)),
      BxdfToString = (\<lambda>_. ''lambert''), StringToBxdf = (\<lambda>_. kLambert),
      can_load = (\<lambda>path. path \<noteq> ''scene/missing.jpg''), can_save = (\<lambda>_. True)\<rparr>"

fun textured_heap :: "nat \<Rightarrow> Material" where
  "textured_heap a =
     (if a = 2
      then set_texture ''normal'' (Some 8) (set_texture ''albedo'' (Some 7) (named_material ''new''))
      else set_texture ''albedo'' (Some 7) (named_material ''old''))"

definition example_io :: MaterialIoXML where
  "example_io =
     \<lparr>m_tex2name = Map.empty, m_name2tex = Map.empty, m_id2mat = Map.empty,
      m_resolve_requests = [], m_base_path = [], heap = textured_heap,
      next_material = 10, next_texture = 20, saved_images = [], loaded_images = []\<rparr>"

definition xml_input :: "string \<Rightarrow> string \<Rightarrow> string \<Rightarrow> XMLElement" where
  "xml_input nm ty v = XMLElement ''Input'' [(''name'', nm), (''type'', ty), (''value'', v)] []"

definition xml_blend :: "string \<Rightarrow> string \<Rightarrow> XMLElement list \<Rightarrow> XMLElement" where
  "xml_blend nm idstr inputs =
     XMLElement ''Material''
       [(''name'', nm), (''id'', idstr), (''thin'', ''false''), (''type'', ''blend''),
        (''blend_type'', ''0'')] inputs"

definition xml_simple :: "string \<Rightarrow> string \<Rightarrow> XMLElement list \<Rightarrow> XMLElement" where
  "xml_simple nm idstr inputs =
     XMLElement ''Material''
       [(''name'', nm), (''id'', idstr), (''thin'', ''false''), (''type'', ''simple''),
        (''bxdf'', ''lambert'')] inputs"

text \<open>
  What the writer is to emit, independent of its cache: the record of an input names a
  texture by \<open>tex_name\<close>; the record of a material holds its attributes and input records.
\<close>

definition input_record :: "collab \<Rightarrow> string \<Rightarrow> InputValue \<Rightarrow> XMLElement" where
  "input_record C nm v =
     XMLElement ''Input''
       [(''name'', nm),
        (''type'', case type v of kFloat4 \<Rightarrow> ''float4'' | kTexture \<Rightarrow> ''texture'' | kMaterial \<Rightarrow> ''material''),
        (''value'', case type v of
                      kFloat4 \<Rightarrow> Float4ToString C (float_value v)
                    | kTexture \<Rightarrow> tex_name (tex_value v)
                    | kMaterial \<Rightarrow> show_int (ptr_int (mat_value v)))] []"

definition material_record :: "collab \<Rightarrow> (nat \<Rightarrow> Material) \<Rightarrow> nat \<Rightarrow> XMLElement" where
  "material_record C h material =
     XMLElement ''Material''
       [(''name'', GetName (h material)),
        (''id'', show_int (ptr_int (Some material))),
        (''thin'', show_bool (IsThin (h material))),
        (''refraction_link_ior'', show_bool (IsLinkRefractionIOR (h material))),
        (''emission_doublesided'', show_bool (isDoubleSided (h material))),
        (''sss_multyscatter'', show_bool (IsMultiscatter (h material))),
        (''layers'', show_nat (unat (GetLayers (h material)))),
        (''bxdf'', BxdfToString C (GetBxdfType (h material)))]
       (map (\<lambda>(nm, v). input_record C nm v) (inputs_to_write (h material)))"

text \<open>The materials among the items of an iterator, and the inputs written for them.\<close>

fun materials_in :: "MaterialPtr list \<Rightarrow> nat list" where
  "materials_in [] = []"
| "materials_in (None # items) = materials_in items"
| "materials_in (Some material # items) = material # materials_in items"

definition written_inputs :: "(nat \<Rightarrow> Material) \<Rightarrow> MaterialPtr list \<Rightarrow> (string \<times> InputValue) list" where
  "written_inputs h items = concat (map (\<lambda>material. inputs_to_write (h material)) (materials_in items))"

text \<open>The texture assets that a sequence of inputs references, in order, with repetitions.\<close>

definition textures_of :: "(string \<times> InputValue) list \<Rightarrow> TexturePtr list" where
  "textures_of ins = map (\<lambda>(nm, v). tex_value v) (filter (\<lambda>(nm, v). type v = kTexture) ins)"

text \<open>\<open>first_seen ts xs\<close>: \<open>ts\<close>, followed by the elements of \<open>xs\<close> not met before, each once.\<close>

fun first_seen :: "'a list \<Rightarrow> 'a list \<Rightarrow> 'a list" where
  "first_seen ts [] = ts"
| "first_seen ts (x # xs) = first_seen (if x \<in> set ts then ts else ts @ [x]) xs"

text \<open>
  The state of the writer when the assets \<open>ts\<close> have been persisted since the save began in
  state \<open>s0\<close>: the image store got them in that order, each under its name in the base
  directory, and the cache holds exactly their names.
\<close>

definition writer_inv :: "TexturePtr list \<Rightarrow> MaterialIoXML \<Rightarrow> MaterialIoXML \<Rightarrow> bool" where
  "writer_inv ts s0 s =
     (distinct ts \<and>
      saved_images s = saved_images s0 @ map (\<lambda>t. (m_base_path s @ tex_name t, t)) ts \<and>
      m_tex2name s = (\<lambda>t. if t \<in> set ts then Some (tex_name t) else None) \<and>
      heap s = heap s0)"

definition images_saved_after ::
  "error + XMLElement list \<times> MaterialIoXML \<Rightarrow> (string \<times> TexturePtr) list option" where
  "images_saved_after res = (case res of Inl e \<Rightarrow> None | Inr (doc, s) \<Rightarrow> Some (saved_images s))"

definition document_after :: "error + XMLElement list \<times> MaterialIoXML \<Rightarrow> XMLElement list option" where
  "document_after res = (case res of Inl e \<Rightarrow> None | Inr (doc, s) \<Rightarrow> Some doc)"

section \<open>Properties\<close>

subsection \<open>The dependency collector\<close>

lemma drain_cyclic_never_returns:
  "drain deps stack mats = Some y \<Longrightarrow> deps = cyclic_deps \<Longrightarrow>
   stack = [] \<or> \<not> set stack \<subseteq> {1, 2}"
proof (induction rule: drain.raw_induct [rotated 1, consumes 1])
  case (1 drain' deps stack mats y)
  show ?case
  proof (cases stack)
    case Nil
    then show ?thesis by simp
  next
    case (Cons m rest)
    with 1(2) have "drain' deps (fold (#) (deps m) rest) (insert m mats) = Some y" by simp
    from 1(1) [OF this 1(3)] show ?thesis using Cons 1(3) by (auto split: if_splits)
  qed
qed

text \<open>Draining a stack drains its upper part first, then the rest from the set reached.\<close>

lemma drain_append:
  "drain deps xs mats = Some y \<Longrightarrow> drain deps (xs @ ys) mats = drain deps ys y"
proof (induction arbitrary: ys rule: drain.raw_induct [rotated 1, consumes 1])
  case (1 drain' deps stack mats y)
  show ?case
  proof (cases stack)
    case Nil
    with 1(2) show ?thesis by simp
  next
    case (Cons m rest)
    with 1(2) have "drain' deps (fold (#) (deps m) rest) (insert m mats) = Some y" by simp
    from 1(1) [OF this, of ys] show ?thesis using Cons
      by (subst drain.simps) (simp add: fold_Cons_rev)
  qed
qed

lemma reachable_unfold:
  "reachable deps (insert m R) = insert m (reachable deps (set (deps m))) \<union> reachable deps R"
proof -
  have "(dep_rel deps)\<^sup>* `` {m} = insert m ((dep_rel deps)\<^sup>* `` (dep_rel deps `` {m}))"
    by (auto elim: converse_rtranclE intro: converse_rtrancl_into_rtrancl)
  moreover have "dep_rel deps `` {m} = set (deps m)" by (auto simp: dep_rel_def)
  ultimately show ?thesis unfolding reachable_def by auto
qed

lemma reachable_Un: "reachable deps (A \<union> B) = reachable deps A \<union> reachable deps B"
  by (auto simp: reachable_def)

lemma reachable_step:
  "x \<in> reachable deps {m} \<Longrightarrow> d \<in> set (deps x) \<Longrightarrow> d \<in> reachable deps {m}"
  by (auto simp: reachable_def dep_rel_def intro: rtrancl_into_rtrancl)

lemma drain_list:
  assumes "\<And>x mats. x \<in> set xs \<Longrightarrow> drain deps [x] mats = Some (mats \<union> reachable deps {x})"
  shows "drain deps xs mats = Some (mats \<union> reachable deps (set xs))"
  using assms
proof (induction xs arbitrary: mats)
  case Nil
  then show ?case by (simp add: drain.simps reachable_def)
next
  case (Cons x xs)
  have "drain deps [x] mats = Some (mats \<union> reachable deps {x})" using Cons.prems by simp
  from drain_append [OF this, of xs]
  have "drain deps (x # xs) mats = drain deps xs (mats \<union> reachable deps {x})" by simp
  also have "\<dots> = Some ((mats \<union> reachable deps {x}) \<union> reachable deps (set xs))"
    using Cons.IH Cons.prems by simp
  finally show ?case using reachable_Un [of deps "{x}" "set xs"] by (simp add: Un_assoc)
qed

lemma drain_acyclic_node:
  fixes rank :: "nat \<Rightarrow> nat"
  assumes "\<And>x d. x \<in> reachable deps {root} \<Longrightarrow> d \<in> set (deps x) \<Longrightarrow> rank d < rank x"
  shows "m \<in> reachable deps {root} \<Longrightarrow> drain deps [m] mats = Some (mats \<union> reachable deps {m})"
proof (induction "rank m" arbitrary: m mats rule: less_induct)
  case less
  have each: "drain deps [x] mats' = Some (mats' \<union> reachable deps {x})"
    if "x \<in> set (rev (deps m))" for x mats'
  proof -
    from that have x: "x \<in> set (deps m)" by simp
    show ?thesis
      using less.hyps [of x mats'] assms [OF less.prems x] reachable_step [OF less.prems x]
      by simp
  qed
  have "drain deps [m] mats = drain deps (rev (deps m)) (insert m mats)"
    by (subst drain.simps) (simp add: fold_Cons_rev)
  also have "\<dots> = Some (insert m mats \<union> reachable deps (set (rev (deps m))))"
    using drain_list [of "rev (deps m)" deps "insert m mats"] each by blast
  finally show ?case using reachable_unfold [of deps m "{}"] by (auto simp: reachable_def)
qed

text \<open>
  C1 (as amended). When the material graph reachable from the shape's material has no cycle
  (every dependency of a reachable material has a smaller rank), the traversal of the lambda
  terminates and its result is exactly the set of materials reachable from the shape's
  material, each once since the result is a set.
\<close>

theorem collect_shape_acyclic:
  fixes rank :: "nat \<Rightarrow> nat"
  assumes "\<And>x d. x \<in> reachable deps {m} \<Longrightarrow> d \<in> set (deps x) \<Longrightarrow> rank d < rank x"
  shows "collect_shape deps (Some m) = Some (reachable deps {m})"
  using drain_acyclic_node [of deps m rank m "{}"] assms
  by (simp add: collect_shape_def reachable_def)

theorem collect_shape_acyclic_witness:
  "collect_shape diamond_deps (Some 1) = Some (reachable diamond_deps {1}) \<and>
   collect_shape diamond_deps (Some 1) = Some {1, 2, 3, 4}"
proof -
  have "collect_shape diamond_deps (Some 1) = Some (reachable diamond_deps {1})"
  proof (rule collect_shape_acyclic [where rank = "\<lambda>m. 5 - m"])
    fix x d
    assume "x \<in> reachable diamond_deps {1}" and "d \<in> set (diamond_deps x)"
    then show "5 - d < 5 - x" by (auto split: if_splits)
  qed
  moreover have "collect_shape diamond_deps (Some 1) = Some {1, 2, 3, 4}"
    by (simp add: collect_shape_def drain.simps insert_commute)
  ultimately show ?thesis by simp
qed

text \<open>
  C1 as stated fails: on two materials that depend on each other the loop never leaves,
  so the lambda returns no set.
\<close>

theorem collect_shape_cycle_counterexample:
  "collect_shape cyclic_deps (Some 1) = None"
proof (cases "collect_shape cyclic_deps (Some 1)")
  case None
  then show ?thesis .
next
  case (Some y)
  then have "drain cyclic_deps [1] {} = Some y" by (simp add: collect_shape_def)
  from drain_cyclic_never_returns [OF this] show ?thesis by simp
qed

subsection \<open>The mapping utilities\<close>

lemma load_mapping_map_of:
  "map mapping_pair doc = map Some pairs \<Longrightarrow>
   load_mapping doc mp = Inr (\<lambda>k. case mp k of Some v \<Rightarrow> Some v | None \<Rightarrow> map_of pairs k)"
proof (induction doc arbitrary: mp pairs)
  case Nil
  then show ?case by (auto split: option.splits)
next
  case (Cons e doc)
  then obtain f t rest where p: "pairs = (f, t) # rest" "mapping_pair e = Some (f, t)"
    "map mapping_pair doc = map Some rest"
    by (cases pairs) auto
  from p(2) have a: "Attribute e ''from'' = Some f" "Attribute e ''to'' = Some t"
    by (auto simp: mapping_pair_def split: option.splits)
  show ?case
    using Cons.IH [OF p(3), of "map_emplace f t mp"] a p(1)
    by (auto simp: map_emplace_def fun_eq_iff split: option.splits)
qed

lemma map_of_first: "k \<notin> fst ` set pre \<Longrightarrow> map_of (pre @ (k, v) # post) k = Some v"
  by (induction pre) auto

text \<open>
  C6 (as amended). For a mapping file whose records all have both attributes, a
  \<^verbatim>\<open>from\<close> key is bound to the first \<^verbatim>\<open>to\<close> value declared for it in document order,
  whatever records follow.
\<close>

theorem LoadMaterialMapping_first_wins:
  assumes "map mapping_pair doc = map Some (pre @ (k, v) # post)"
    and "k \<notin> fst ` set pre"
  shows "bound_to (LoadMaterialMapping doc) k = Some v"
  using load_mapping_map_of [OF assms(1), of Map.empty] map_of_first [OF assms(2)]
  by (simp add: LoadMaterialMapping_def bound_to_def)

theorem LoadMaterialMapping_first_wins_witness:
  "bound_to (LoadMaterialMapping
      [XMLElement ''Mapping'' [(''from'', ''a''), (''to'', ''x'')] [],
       XMLElement ''Mapping'' [(''from'', ''b''), (''to'', ''z'')] [],
       XMLElement ''Mapping'' [(''from'', ''a''), (''to'', ''y'')] []]) ''a'' = Some ''x''"
  using LoadMaterialMapping_first_wins [of
      "[XMLElement ''Mapping'' [(''from'', ''a''), (''to'', ''x'')] [],
       XMLElement ''Mapping'' [(''from'', ''b''), (''to'', ''z'')] [],
       XMLElement ''Mapping'' [(''from'', ''a''), (''to'', ''y'')] []]"
      "[]" "''a''" "''x''" "[(''b'', ''z''), (''a'', ''y'')]"]
  by (simp add: mapping_pair_def Attribute_def)

text \<open>
  C6 as stated fails: with two records for the key \<^verbatim>\<open>a\<close>, the table does not bind it to
  the value declared last.
\<close>

theorem LoadMaterialMapping_last_wins_counterexample:
  "bound_to (LoadMaterialMapping
      [XMLElement ''Mapping'' [(''from'', ''a''), (''to'', ''x'')] [],
       XMLElement ''Mapping'' [(''from'', ''a''), (''to'', ''y'')] []]) ''a'' \<noteq> Some ''y''"
  by (simp add: LoadMaterialMapping_def bound_to_def Attribute_def map_emplace_def)

lemma fold_name2mat_None:
  "(fold (\<lambda>material tbl. tbl(GetName (h material) \<mapsto> material)) xs tbl) nm = None \<longleftrightarrow>
   tbl nm = None \<and> nm \<notin> set (map (\<lambda>p. GetName (h p)) xs)"
  by (induction xs arbitrary: tbl) auto

lemma fold_name2mat_Some:
  "(fold (\<lambda>material tbl. tbl(GetName (h material) \<mapsto> material)) xs tbl) nm = Some p \<Longrightarrow>
   tbl nm = Some p \<or> (p \<in> set xs \<and> GetName (h p) = nm)"
proof (induction xs arbitrary: tbl)
  case Nil
  then show ?case by simp
next
  case (Cons a xs)
  from Cons.IH [of "tbl(GetName (h a) \<mapsto> a)"] Cons.prems show ?case
    by (auto split: if_splits)
qed

lemma build_name2mat_None:
  "build_name2mat h loaded nm = None \<longleftrightarrow> nm \<notin> set (map (\<lambda>p. GetName (h p)) loaded)"
  by (simp add: build_name2mat_def fold_name2mat_None)

lemma build_name2mat_Some:
  "build_name2mat h loaded nm = Some p \<Longrightarrow> p \<in> set loaded \<and> GetName (h p) = nm"
  using fold_name2mat_Some [of h loaded Map.empty nm p] by (simp add: build_name2mat_def)

lemma replace_shape_spec:
  "(case rebind_target h loaded mapping shape of
      None \<Rightarrow> replace_shape h (build_name2mat h loaded) mapping shape = shape
    | Some to \<Rightarrow> (\<exists>p \<in> set loaded. GetName (h p) = to \<and>
         replace_shape h (build_name2mat h loaded) mapping shape = shape\<lparr>GetMaterial := Some p\<rparr>))"
proof (cases "rebind_target h loaded mapping shape")
  case None
  then show ?thesis
    by (auto simp: rebind_target_def replace_shape_def build_name2mat_None
        dest: build_name2mat_Some split: option.splits if_splits)
next
  case (Some to)
  then obtain m where m: "GetMaterial shape = Some m" "mapping (GetName (h m)) = Some to"
    "to \<in> set (map (\<lambda>p. GetName (h p)) loaded)"
    by (auto simp: rebind_target_def split: option.splits if_splits)
  from m(3) obtain p where p: "build_name2mat h loaded to = Some p"
    using build_name2mat_None [of h loaded to] by (cases "build_name2mat h loaded to") auto
  from build_name2mat_Some [OF p] show ?thesis
    using Some m p by (auto simp: replace_shape_def)
qed

text \<open>
  C8. \<^verbatim>\<open>ReplaceSceneMaterials\<close> keeps the shapes in place and, for every shape: when the
  name of its current material is a mapping key whose target name exists in the loaded node
  set, the shape is rebound to a loaded node of that name; in every other case (no material,
  unmapped name, target absent from the loaded set) the shape is left as it was. The function
  has no failing path.
\<close>

theorem ReplaceSceneMaterials_rebinds_only_mapped:
  assumes "i < length scene"
  shows "length (ReplaceSceneMaterials h scene loaded mapping) = length scene \<and>
    (case rebind_target h loaded mapping (scene ! i) of
       None \<Rightarrow> ReplaceSceneMaterials h scene loaded mapping ! i = scene ! i
     | Some to \<Rightarrow> (\<exists>p \<in> set loaded. GetName (h p) = to \<and>
         ReplaceSceneMaterials h scene loaded mapping ! i = (scene ! i)\<lparr>GetMaterial := Some p\<rparr>))"
  using assms replace_shape_spec [of h loaded mapping "scene ! i"]
  by (auto simp: ReplaceSceneMaterials_def split: option.splits)

theorem ReplaceSceneMaterials_rebinds_only_mapped_witness:
  "ReplaceSceneMaterials example_heap
     [\<lparr>GetMaterial = Some 1\<rparr>, \<lparr>GetMaterial = Some 3\<rparr>, \<lparr>GetMaterial = None\<rparr>] [2]
     [''old'' \<mapsto> ''new'', ''other'' \<mapsto> ''absent''] ! 0 = \<lparr>GetMaterial = Some 2\<rparr> \<and>
   ReplaceSceneMaterials example_heap
     [\<lparr>GetMaterial = Some 1\<rparr>, \<lparr>GetMaterial = Some 3\<rparr>, \<lparr>GetMaterial = None\<rparr>] [2]
     [''old'' \<mapsto> ''new'', ''other'' \<mapsto> ''absent''] ! 1 = \<lparr>GetMaterial = Some 3\<rparr>"
  using ReplaceSceneMaterials_rebinds_only_mapped [of 0
      "[\<lparr>GetMaterial = Some 1\<rparr>, \<lparr>GetMaterial = Some 3\<rparr>, \<lparr>GetMaterial = None\<rparr>]"
      example_heap "[2]" "[''old'' \<mapsto> ''new'', ''other'' \<mapsto> ''absent'']"]
    ReplaceSceneMaterials_rebinds_only_mapped [of 1
      "[\<lparr>GetMaterial = Some 1\<rparr>, \<lparr>GetMaterial = Some 3\<rparr>, \<lparr>GetMaterial = None\<rparr>]"
      example_heap "[2]" "[''old'' \<mapsto> ''new'', ''other'' \<mapsto> ''absent'']"]
  by (simp add: rebind_target_def named_material_def new_material_def)

subsection \<open>The reader\<close>

lemma on_material_simps [simp]:
  "heap (on_material p f s) = (heap s)(p := f (heap s p))"
  "m_id2mat (on_material p f s) = m_id2mat s"
  "m_name2tex (on_material p f s) = m_name2tex s"
  "m_tex2name (on_material p f s) = m_tex2name s"
  "m_resolve_requests (on_material p f s) = m_resolve_requests s"
  "m_base_path (on_material p f s) = m_base_path s"
  "next_material (on_material p f s) = next_material s"
  "next_texture (on_material p f s) = next_texture s"
  "saved_images (on_material p f s) = saved_images s"
  "loaded_images (on_material p f s) = loaded_images s"
  by (simp_all add: on_material_def)

lemma set_input_simps [simp]:
  "GetInputValue (set_float4 nm v m) = (GetInputValue m)(nm := (GetInputValue m nm)\<lparr>type := kFloat4, float_value := v\<rparr>)"
  "GetInputValue (set_texture nm t m) = (GetInputValue m)(nm := (GetInputValue m nm)\<lparr>type := kTexture, tex_value := t\<rparr>)"
  "GetInputValue (set_material nm q m) = (GetInputValue m)(nm := (GetInputValue m nm)\<lparr>type := kMaterial, mat_value := q\<rparr>)"
  by (simp_all add: set_float4_def set_texture_def set_material_def)

lemma LoadImage_simps:
  "LoadImage C path s = Inr (t, s1) \<Longrightarrow>
     heap s1 = heap s \<and> m_id2mat s1 = m_id2mat s \<and> next_material s1 = next_material s \<and>
     m_resolve_requests s1 = m_resolve_requests s \<and> m_name2tex s1 = m_name2tex s \<and>
     m_base_path s1 = m_base_path s"
  by (auto simp: LoadImage_def split: if_splits)

lemma LoadInput_frame:
  assumes "LoadInput C p inp s = Inr s'"
  shows "next_material s' = next_material s" and "m_id2mat s' = m_id2mat s"
    and "q \<noteq> p \<Longrightarrow> heap s' q = heap s q"
  using assms
  by (auto simp: LoadInput_def Let_def dest!: LoadImage_simps split: option.splits if_splits prod.splits sum.splits)

lemma LoadInput_other_input:
  assumes "LoadInput C p inp s = Inr s'" and "Attribute inp ''name'' \<noteq> Some n"
  shows "GetInputValue (heap s' p) n = GetInputValue (heap s p) n"
  using assms
  by (auto simp: LoadInput_def Let_def dest!: LoadImage_simps split: option.splits if_splits prod.splits sum.splits)

lemma LoadInput_requests:
  assumes "LoadInput C p inp s = Inr s'"
  shows "m_resolve_requests s' = fold set_emplace (pending (m_id2mat s) p inp) (m_resolve_requests s)"
  using assms
  by (auto simp: LoadInput_def pending_def Let_def dest!: LoadImage_simps split: option.splits if_splits prod.splits sum.splits)

lemma LoadInput_material_found:
  assumes "LoadInput C p inp s = Inr s'" and "material_input_to i inp"
    and "Attribute inp ''name'' = Some nm" and "m_id2mat s i = Some q"
  shows "GetInputValue (heap s' p) nm = (GetInputValue (heap s p) nm)\<lparr>type := kMaterial, mat_value := q\<rparr>"
  using assms
  by (auto simp: LoadInput_def material_input_to_def Let_def split: option.splits if_splits prod.splits)

lemma LoadInput_material_pending:
  assumes "LoadInput C p inp s = Inr s'" and "material_input_to i inp" and "m_id2mat s i = None"
  shows "heap s' = heap s"
  using assms
  by (auto simp: LoadInput_def material_input_to_def Let_def split: option.splits if_splits prod.splits)


lemma load_inputs_append:
  "load_inputs C p (xs @ ys) s =
     (case load_inputs C p xs s of Inl e \<Rightarrow> Inl e | Inr s1 \<Rightarrow> load_inputs C p ys s1)"
  by (induction xs arbitrary: s) (auto split: sum.splits)

lemma load_inputs_frame:
  assumes "load_inputs C p inps s = Inr s'"
  shows "next_material s' = next_material s \<and> m_id2mat s' = m_id2mat s \<and>
         (\<forall>q. q \<noteq> p \<longrightarrow> heap s' q = heap s q)"
  using assms
proof (induction inps arbitrary: s)
  case Nil
  then show ?case by simp
next
  case (Cons c inps)
  then obtain s1 where s1: "LoadInput C p c s = Inr s1" "load_inputs C p inps s1 = Inr s'"
    by (auto split: sum.splits)
  from Cons.IH [OF s1(2)] LoadInput_frame [OF s1(1)] show ?case by simp
qed

lemma load_inputs_other_input:
  assumes "load_inputs C p inps s = Inr s'"
    and "\<forall>c \<in> set inps. Attribute c ''name'' \<noteq> Some n"
  shows "GetInputValue (heap s' p) n = GetInputValue (heap s p) n"
  using assms
proof (induction inps arbitrary: s)
  case Nil
  then show ?case by simp
next
  case (Cons c inps)
  then obtain s1 where s1: "LoadInput C p c s = Inr s1" "load_inputs C p inps s1 = Inr s'"
    by (auto split: sum.splits)
  from Cons.IH [OF s1(2)] Cons.prems(2) LoadInput_other_input [OF s1(1), of n]
  show ?case by simp
qed

lemma load_inputs_requests:
  assumes "load_inputs C p inps s = Inr s'"
  shows "m_resolve_requests s' =
           fold set_emplace (concat (map (pending (m_id2mat s) p) inps)) (m_resolve_requests s)"
  using assms
proof (induction inps arbitrary: s)
  case Nil
  then show ?case by simp
next
  case (Cons c inps)
  then obtain s1 where s1: "LoadInput C p c s = Inr s1" "load_inputs C p inps s1 = Inr s'"
    by (auto split: sum.splits)
  from Cons.IH [OF s1(2)] LoadInput_requests [OF s1(1)] LoadInput_frame(2) [OF s1(1)]
  show ?case by simp
qed

text \<open>Facts about \<^verbatim>\<open>emplace\<close> that hold whatever the order of the list.\<close>

lemma set_emplace_mono: "set rs \<subseteq> set (set_emplace r rs)"
  by (induction rs) auto

lemma set_emplace_upper: "set (set_emplace r rs) \<subseteq> insert r (set rs)"
  by (induction rs) auto

lemma set_emplace_new: "rr_id r \<notin> rr_id ` set rs \<Longrightarrow> r \<in> set (set_emplace r rs)"
  by (induction rs) auto

lemma fold_emplace_mono: "set rs \<subseteq> set (fold set_emplace new rs)"
proof (induction new arbitrary: rs)
  case Nil
  then show ?case by simp
next
  case (Cons a new)
  from Cons [of "set_emplace a rs"] set_emplace_mono [of rs a] show ?case by auto
qed

lemma fold_emplace_upper: "set (fold set_emplace new rs) \<subseteq> set rs \<union> set new"
proof (induction new arbitrary: rs)
  case Nil
  then show ?case by simp
next
  case (Cons a new)
  from Cons [of "set_emplace a rs"] set_emplace_upper [of a rs] show ?case by auto
qed

lemma fold_emplace_first:
  assumes "rr_id r \<notin> rr_id ` set rs" and "rr_id r \<notin> rr_id ` set n1"
  shows "r \<in> set (fold set_emplace (n1 @ r # n2) rs)"
proof -
  have a: "rr_id r \<notin> rr_id ` set (fold set_emplace n1 rs)"
    using fold_emplace_upper [of n1 rs] assms by auto
  have "r \<in> set (set_emplace r (fold set_emplace n1 rs))"
    using a by (rule set_emplace_new)
  then show ?thesis using fold_emplace_mono [of "set_emplace r (fold set_emplace n1 rs)" n2]
    by auto
qed



lemma create_material_props:
  assumes "create_material C e ty s = Inr (p, s1)"
  shows "p = next_material s" and "next_material s1 = Suc (next_material s)"
    and "m_id2mat s1 = m_id2mat s" and "m_resolve_requests s1 = m_resolve_requests s"
    and "q \<noteq> next_material s \<Longrightarrow> heap s1 q = heap s q"
    and "GetInputValue (heap s1 (next_material s)) n = default_input"
  using assms
  by (auto simp: create_material_def Create_def new_material_def
      split: if_splits option.splits prod.splits)

text \<open>The steps of a successful call of LoadMaterial.\<close>

lemma LoadMaterial_steps:
  assumes "LoadMaterial C e s = Inr (p, s')"
  shows "\<exists>s3 s4 i.
    p = next_material s \<and> next_material s3 = Suc (next_material s) \<and>
    m_id2mat s3 = m_id2mat s \<and> m_resolve_requests s3 = m_resolve_requests s \<and>
    (\<forall>q. q \<noteq> p \<longrightarrow> heap s3 q = heap s q) \<and>
    (\<forall>n. GetInputValue (heap s3 p) n = default_input) \<and>
    load_inputs C p (Children e) s3 = Inr s4 \<and>
    declares i e \<and> s' = s4\<lparr>m_id2mat := (m_id2mat s4)(i \<mapsto> Some p)\<rparr>"
proof -
  from assms obtain nm ty idstr s1 s4 where
    a: "Attribute e ''id'' = Some idstr"
      "create_material C e ty s = Inr (p, s1)"
      "load_inputs C p (Children e)
         (on_material p (\<lambda>m. m\<lparr>IsThin := ((case Attribute e ''thin'' of None \<Rightarrow> [] | Some t \<Rightarrow> t) = ''true'')\<rparr>)
           (on_material p (\<lambda>m. m\<lparr>GetName := nm\<rparr>) s1)) = Inr s4"
      "s' = s4\<lparr>m_id2mat := (m_id2mat s4)(atoi_u64 idstr \<mapsto> Some p)\<rparr>"
    by (auto simp: LoadMaterial_def Let_def split: option.splits sum.splits prod.splits)
  note c = create_material_props [OF a(2)]
  have d: "declares (atoi_u64 idstr) e" using a(1) by (simp add: declares_def)
  show ?thesis
    apply (rule exI [of _ "on_material p (\<lambda>m. m\<lparr>IsThin := ((case Attribute e ''thin'' of None \<Rightarrow> [] | Some t \<Rightarrow> t) = ''true'')\<rparr>)
           (on_material p (\<lambda>m. m\<lparr>GetName := nm\<rparr>) s1)"])
    apply (rule exI [of _ s4])
    apply (rule exI [of _ "atoi_u64 idstr"])
    using a(3,4) c d apply simp
    done
qed

lemma LoadMaterial_props:
  assumes "LoadMaterial C e s = Inr (p, s')"
  shows "p = next_material s" and "next_material s' = Suc (next_material s)"
    and "q \<noteq> p \<Longrightarrow> heap s' q = heap s q"
    and "\<exists>i. declares i e \<and> m_id2mat s' = (m_id2mat s)(i \<mapsto> Some p)"
    and "m_resolve_requests s' =
           fold set_emplace (concat (map (pending (m_id2mat s) p) (Children e))) (m_resolve_requests s)"
proof -
  from LoadMaterial_steps [OF assms] obtain s3 s4 i where
    a: "p = next_material s" "next_material s3 = Suc (next_material s)"
      "m_id2mat s3 = m_id2mat s" "m_resolve_requests s3 = m_resolve_requests s"
      "\<forall>q. q \<noteq> p \<longrightarrow> heap s3 q = heap s q"
      "load_inputs C p (Children e) s3 = Inr s4"
      "declares i e" "s' = s4\<lparr>m_id2mat := (m_id2mat s4)(i \<mapsto> Some p)\<rparr>"
    by blast
  note f = load_inputs_frame [OF a(6)] and r = load_inputs_requests [OF a(6)]
  show "p = next_material s" by (rule a(1))
  show "next_material s' = Suc (next_material s)" using a f by simp
  show "q \<noteq> p \<Longrightarrow> heap s' q = heap s q" using a f by simp
  show "\<exists>i. declares i e \<and> m_id2mat s' = (m_id2mat s)(i \<mapsto> Some p)" using a f by auto
  show "m_resolve_requests s' =
           fold set_emplace (concat (map (pending (m_id2mat s) p) (Children e))) (m_resolve_requests s)"
    using a r by simp
qed

text \<open>The value of an input after LoadMaterial, when one child only has its name.\<close>

lemma LoadMaterial_input:
  assumes "LoadMaterial C e s = Inr (p, s')"
    and "Children e = cpre @ inp # cpost"
    and "Attribute inp ''name'' = Some nm"
    and "\<forall>c \<in> set cpre \<union> set cpost. Attribute c ''name'' \<noteq> Some nm"
    and "material_input_to i inp"
  shows "GetInputValue (heap s' p) nm =
           (case m_id2mat s i of
              None \<Rightarrow> default_input
            | Some found \<Rightarrow> default_input\<lparr>type := kMaterial, mat_value := found\<rparr>)"
proof -
  from LoadMaterial_steps [OF assms(1)] obtain s3 s4 j where
    a: "m_id2mat s3 = m_id2mat s"
    and a2: "\<forall>n. GetInputValue (heap s3 p) n = default_input"
    and a3: "load_inputs C p (Children e) s3 = Inr s4"
    and a4: "declares j e" "s' = s4\<lparr>m_id2mat := (m_id2mat s4)(j \<mapsto> Some p)\<rparr>"
    by blast
  from a3 assms(2) obtain t1 t2 where
    t: "load_inputs C p cpre s3 = Inr t1" "LoadInput C p inp t1 = Inr t2"
      "load_inputs C p cpost t2 = Inr s4"
    by (auto simp: load_inputs_append split: sum.splits)
  have 1: "GetInputValue (heap t1 p) nm = default_input"
    using load_inputs_other_input [OF t(1), of nm] assms(4) a2 by simp
  have tbl: "m_id2mat t1 = m_id2mat s" using load_inputs_frame [OF t(1)] a by simp
  have 2: "GetInputValue (heap t2 p) nm =
           (case m_id2mat s i of
              None \<Rightarrow> default_input
            | Some found \<Rightarrow> default_input\<lparr>type := kMaterial, mat_value := found\<rparr>)"
  proof (cases "m_id2mat s i")
    case None
    then show ?thesis
      using LoadInput_material_pending [OF t(2) assms(5)] tbl 1 by simp
  next
    case (Some found)
    then show ?thesis
      using LoadInput_material_found [OF t(2) assms(5) assms(3), of found] tbl 1 by simp
  qed
  have "GetInputValue (heap s4 p) nm = GetInputValue (heap t2 p) nm"
    using load_inputs_other_input [OF t(3), of nm] assms(4) by simp
  then show ?thesis using 2 a4(2) by simp
qed



lemma pending_member:
  assumes "r \<in> set (pending tbl p c)"
  shows "rr_material r = p" and "material_input_to (rr_id r) c"
    and "Attribute c ''name'' = Some (rr_input r)" and "tbl (rr_id r) = None"
proof -
  from assms obtain ty nm v where
    a: "Attribute c ''type'' = Some ty" "Attribute c ''name'' = Some nm"
      "Attribute c ''value'' = Some v"
    by (cases "Attribute c ''type''"; cases "Attribute c ''name''"; cases "Attribute c ''value''")
      (auto simp: pending_def)
  with assms have b: "ty = ''material''" "tbl (atoi_u64 v) = None"
    "r = \<lparr>rr_material = p, rr_input = nm, rr_id = atoi_u64 v\<rparr>"
    by (auto simp: pending_def split: if_splits)
  show "rr_material r = p" using b by simp
  show "material_input_to (rr_id r) c" using a b by (simp add: material_input_to_def)
  show "Attribute c ''name'' = Some (rr_input r)" using a b by simp
  show "tbl (rr_id r) = None" using b by simp
qed

lemma pending_material_input:
  assumes "material_input_to i c" and "Attribute c ''name'' = Some nm" and "tbl i = None"
  shows "pending tbl p c = [\<lparr>rr_material = p, rr_input = nm, rr_id = i\<rparr>]"
  using assms by (auto simp: pending_def material_input_to_def split: option.splits)

lemma load_elements_append:
  "load_elements C (xs @ ys) s =
     (case load_elements C xs s of
        Inl e \<Rightarrow> Inl e
      | Inr (ms1, s1) \<Rightarrow>
          (case load_elements C ys s1 of
             Inl e \<Rightarrow> Inl e
           | Inr (ms2, s2) \<Rightarrow> Inr (ms1 \<union> ms2, s2)))"
  by (induction xs arbitrary: s) (auto split: sum.splits prod.splits)

lemma load_elements_props:
  assumes "load_elements C doc s = Inr (ms, s')"
  shows "next_material s' = next_material s + length doc \<and>
         ms = {next_material s ..< next_material s + length doc} \<and>
         (\<forall>q. q < next_material s \<longrightarrow> heap s' q = heap s q) \<and>
         ((\<forall>e \<in> set doc. \<not> declares i e) \<longrightarrow> m_id2mat s' i = m_id2mat s i) \<and>
         set (m_resolve_requests s) \<subseteq> set (m_resolve_requests s') \<and>
         (\<forall>r \<in> set (m_resolve_requests s').
            r \<in> set (m_resolve_requests s) \<or>
            (next_material s \<le> rr_material r \<and> rr_material r < next_material s' \<and>
             (\<exists>e \<in> set doc. \<exists>c \<in> set (Children e). material_input_to (rr_id r) c)))"
  using assms
proof (induction doc arbitrary: s ms)
  case Nil
  then show ?case by simp
next
  case (Cons e doc)
  then obtain p s1 ms1 where
    a: "LoadMaterial C e s = Inr (p, s1)" "load_elements C doc s1 = Inr (ms1, s')"
      "ms = insert p ms1"
    by (auto split: sum.splits prod.splits)
  note m = LoadMaterial_props [OF a(1)]
  note ih = Cons.IH [OF a(2)]
  have nxt: "next_material s' = next_material s + length (e # doc)" using ih m by simp
  have ms: "ms = {next_material s ..< next_material s + length (e # doc)}"
    using ih m a(3) by auto
  have hp: "\<forall>q. q < next_material s \<longrightarrow> heap s' q = heap s q"
    using ih m(1,2) m(3) by auto
  have tbl: "(\<forall>e' \<in> set (e # doc). \<not> declares i e') \<longrightarrow> m_id2mat s' i = m_id2mat s i"
  proof
    assume n: "\<forall>e' \<in> set (e # doc). \<not> declares i e'"
    from m(4) obtain j where j: "declares j e" "m_id2mat s1 = (m_id2mat s)(j \<mapsto> Some p)"
      by blast
    from j(1) n have "i \<noteq> j" by auto
    then show "m_id2mat s' i = m_id2mat s i" using ih n j(2) by simp
  qed
  have mono: "set (m_resolve_requests s) \<subseteq> set (m_resolve_requests s')"
    using ih m(5) fold_emplace_mono [of "m_resolve_requests s"] by auto
  have new: "\<forall>r \<in> set (m_resolve_requests s').
            r \<in> set (m_resolve_requests s) \<or>
            (next_material s \<le> rr_material r \<and> rr_material r < next_material s' \<and>
             (\<exists>e' \<in> set (e # doc). \<exists>c \<in> set (Children e'). material_input_to (rr_id r) c))"
  proof
    fix r assume r: "r \<in> set (m_resolve_requests s')"
    from ih r consider "r \<in> set (m_resolve_requests s1)"
      | "next_material s1 \<le> rr_material r \<and> rr_material r < next_material s' \<and>
         (\<exists>e' \<in> set doc. \<exists>c \<in> set (Children e'). material_input_to (rr_id r) c)"
      by blast
    then show "r \<in> set (m_resolve_requests s) \<or>
            (next_material s \<le> rr_material r \<and> rr_material r < next_material s' \<and>
             (\<exists>e' \<in> set (e # doc). \<exists>c \<in> set (Children e'). material_input_to (rr_id r) c))"
    proof cases
      case 1
      then have "r \<in> set (m_resolve_requests s) \<or>
                 r \<in> set (concat (map (pending (m_id2mat s) p) (Children e)))"
        using m(5) fold_emplace_upper by fastforce
      then show ?thesis
      proof
        assume "r \<in> set (m_resolve_requests s)"
        then show ?thesis by simp
      next
        assume "r \<in> set (concat (map (pending (m_id2mat s) p) (Children e)))"
        then obtain c where c: "c \<in> set (Children e)" "r \<in> set (pending (m_id2mat s) p c)"
          by auto
        from pending_member [OF c(2)] c(1) m(1) nxt show ?thesis by auto
      qed
    next
      case 2
      then show ?thesis using m(2) by auto
    qed
  qed
  from nxt ms hp tbl mono new show ?case by blast
qed


lemma resolve_fields [simp]:
  "m_resolve_requests (resolve r s) = m_resolve_requests s"
  "next_material (resolve r s) = next_material s"
  by (auto simp: resolve_def split: option.splits)

lemma resolve_lookup [simp]:
  "lookup_or_null (m_id2mat (resolve r s)) = lookup_or_null (m_id2mat s)"
  by (auto simp: resolve_def lookup_or_null_def fun_eq_iff split: option.splits)

lemma resolve_keeps_entry:
  "m_id2mat s j = Some x \<Longrightarrow> m_id2mat (resolve r s) j = Some x"
  by (auto simp: resolve_def split: option.splits)

lemma resolve_other_slot:
  "(rr_material r, rr_input r) \<noteq> (q, n) \<Longrightarrow>
   GetInputValue (heap (resolve r s) q) n = GetInputValue (heap s q) n"
  by (auto simp: resolve_def split: option.splits)

lemma resolve_slot:
  "type (GetInputValue (heap (resolve r s) (rr_material r)) (rr_input r)) = kMaterial \<and>
   mat_value (GetInputValue (heap (resolve r s) (rr_material r)) (rr_input r)) =
     lookup_or_null (m_id2mat s) (rr_id r)"
  by (auto simp: resolve_def lookup_or_null_def split: option.splits)

lemma fold_resolve_fields [simp]:
  "m_resolve_requests (fold resolve rs s) = m_resolve_requests s"
  "next_material (fold resolve rs s) = next_material s"
  "lookup_or_null (m_id2mat (fold resolve rs s)) = lookup_or_null (m_id2mat s)"
  by (induction rs arbitrary: s) auto

lemma fold_resolve_keeps_entry:
  "m_id2mat s j = Some x \<Longrightarrow> m_id2mat (fold resolve rs s) j = Some x"
  by (induction rs arbitrary: s) (auto simp: resolve_keeps_entry)

lemma fold_resolve_other_slot:
  "\<forall>r \<in> set rs. (rr_material r, rr_input r) \<noteq> (q, n) \<Longrightarrow>
   GetInputValue (heap (fold resolve rs s) q) n = GetInputValue (heap s q) n"
  by (induction rs arbitrary: s) (auto simp: resolve_other_slot)

text \<open>
  A slot that some request names, all requests naming it having the same target, holds
  after the loop what the table gave for that target.
\<close>

lemma fold_resolve_slot:
  assumes "r \<in> set rs"
    and "\<forall>r' \<in> set rs. (rr_material r', rr_input r') = (rr_material r, rr_input r) \<longrightarrow> rr_id r' = rr_id r"
  shows "type (GetInputValue (heap (fold resolve rs s) (rr_material r)) (rr_input r)) = kMaterial \<and>
         mat_value (GetInputValue (heap (fold resolve rs s) (rr_material r)) (rr_input r)) =
           lookup_or_null (m_id2mat s) (rr_id r)"
  using assms
proof (induction rs arbitrary: s r)
  case Nil
  then show ?case by simp
next
  case (Cons a rs)
  show ?case
  proof (cases "r \<in> set rs")
    case True
    from Cons.IH [OF True, of "resolve a s"] Cons.prems(2) show ?thesis by simp
  next
    case False
    with Cons.prems have ra: "a = r" by simp
    show ?thesis
    proof (cases "\<exists>r' \<in> set rs. (rr_material r', rr_input r') = (rr_material r, rr_input r)")
      case True
      then obtain r' where r': "r' \<in> set rs"
        "(rr_material r', rr_input r') = (rr_material r, rr_input r)" by blast
      with Cons.prems(2) have id: "rr_id r' = rr_id r" by simp
      have "\<forall>x \<in> set rs. (rr_material x, rr_input x) = (rr_material r', rr_input r') \<longrightarrow> rr_id x = rr_id r'"
        using Cons.prems(2) r'(2) id by simp
      from Cons.IH [OF r'(1) this, of "resolve a s"] r'(2) id show ?thesis by simp
    next
      case False
      then have "GetInputValue (heap (fold resolve rs (resolve r s)) (rr_material r)) (rr_input r) =
                 GetInputValue (heap (resolve r s) (rr_material r)) (rr_input r)"
        using fold_resolve_other_slot [of rs "rr_material r" "rr_input r" "resolve r s"] by blast
      then show ?thesis using resolve_slot [of r s] ra by simp
    qed
  qed
qed

lemma begin_load_simps [simp]:
  "m_id2mat (begin_load fn s) = Map.empty"
  "m_resolve_requests (begin_load fn s) = []"
  "next_material (begin_load fn s) = next_material s"
  "heap (begin_load fn s) = heap s"
  by (simp_all add: begin_load_def)

lemma declares_unique: "declares i e \<Longrightarrow> declares j e \<Longrightarrow> i = j"
  by (auto simp: declares_def)

lemma load_elements_next:
  "load_elements C doc s = Inr (ms, s') \<Longrightarrow> next_material s' = next_material s + length doc"
  using load_elements_props [of C doc s ms s'] by simp

lemma load_elements_nodes:
  "load_elements C doc s = Inr (ms, s') \<Longrightarrow> ms = {next_material s ..< next_material s + length doc}"
  using load_elements_props [of C doc s ms s'] by simp

lemma load_elements_heap:
  "load_elements C doc s = Inr (ms, s') \<Longrightarrow> q < next_material s \<Longrightarrow> heap s' q = heap s q"
  using load_elements_props [of C doc s ms s'] by simp

lemma load_elements_table:
  "load_elements C doc s = Inr (ms, s') \<Longrightarrow> \<forall>e \<in> set doc. \<not> declares i e \<Longrightarrow>
   m_id2mat s' i = m_id2mat s i"
  using load_elements_props [of C doc s ms s' i] by simp

lemma load_elements_requests_mono:
  "load_elements C doc s = Inr (ms, s') \<Longrightarrow> r \<in> set (m_resolve_requests s) \<Longrightarrow>
   r \<in> set (m_resolve_requests s')"
  using load_elements_props [of C doc s ms s'] by blast

lemma load_elements_requests_new:
  assumes "load_elements C doc s = Inr (ms, s')" and "r \<in> set (m_resolve_requests s')"
    and "r \<notin> set (m_resolve_requests s)"
  shows "next_material s \<le> rr_material r" and "rr_material r < next_material s'"
    and "\<exists>e \<in> set doc. \<exists>c \<in> set (Children e). material_input_to (rr_id r) c"
  using load_elements_props [OF assms(1)] assms(2,3) by blast+

lemma load_elements_split:
  assumes "load_elements C (pre @ e # post) s0 = Inr (ms, s1)"
    and "\<forall>r \<in> set (m_resolve_requests s0). rr_material r < next_material s0"
  shows "\<exists>ms1 sa sb ms3.
     load_elements C pre s0 = Inr (ms1, sa) \<and>
     LoadMaterial C e sa = Inr (next_material s0 + length pre, sb) \<and>
     load_elements C post sb = Inr (ms3, s1) \<and>
     next_material sa = next_material s0 + length pre \<and>
     heap s1 (next_material s0 + length pre) = heap sb (next_material s0 + length pre) \<and>
     (\<forall>r \<in> set (m_resolve_requests s1).
        rr_material r = next_material s0 + length pre \<longrightarrow>
        r \<in> set (concat (map (pending (m_id2mat sa) (next_material s0 + length pre)) (Children e))))"
proof -
  let ?p = "next_material s0 + length pre"
  from assms(1) obtain ms1 sa p sb ms3 where
    a: "load_elements C pre s0 = Inr (ms1, sa)" "LoadMaterial C e sa = Inr (p, sb)"
      "load_elements C post sb = Inr (ms3, s1)"
    by (auto simp: load_elements_append split: sum.splits prod.splits)
  note m = LoadMaterial_props [OF a(2)]
  have nsa: "next_material sa = ?p" using load_elements_next [OF a(1)] .
  have p: "p = ?p" using m(1) nsa by simp
  have hp: "heap s1 ?p = heap sb ?p" using load_elements_heap [OF a(3), of ?p] m(2) nsa by simp
  have rq: "\<forall>r \<in> set (m_resolve_requests s1). rr_material r = ?p \<longrightarrow>
        r \<in> set (concat (map (pending (m_id2mat sa) ?p) (Children e)))"
  proof (intro ballI impI)
    fix r assume r: "r \<in> set (m_resolve_requests s1)" "rr_material r = ?p"
    have 1: "r \<in> set (m_resolve_requests sb)"
      using load_elements_requests_new(1) [OF a(3) r(1)] r(2) m(2) nsa by auto
    have 2: "r \<notin> set (m_resolve_requests sa)"
    proof
      assume in_sa: "r \<in> set (m_resolve_requests sa)"
      show False
      proof (cases "r \<in> set (m_resolve_requests s0)")
        case True
        with assms(2) r(2) show False by auto
      next
        case False
        from load_elements_requests_new(2) [OF a(1) in_sa False] r(2) nsa show False by simp
      qed
    qed
    from 1 m(5) fold_emplace_upper 2 p
    show "r \<in> set (concat (map (pending (m_id2mat sa) ?p) (Children e)))"
      by fastforce
  qed
  from a p nsa hp rq show ?thesis by blast
qed


lemma slot_requests:
  assumes "r \<in> set (concat (map (pending tbl p) (cpre @ inp # cpost)))"
    and "rr_input r = nm"
    and "\<forall>c \<in> set cpre \<union> set cpost. Attribute c ''name'' \<noteq> Some nm"
  shows "r \<in> set (pending tbl p inp)"
proof -
  from assms(1) obtain c where c: "c \<in> set cpre \<union> {inp} \<union> set cpost" "r \<in> set (pending tbl p c)"
    by auto
  from pending_member(3) [OF c(2)] assms(2) have "Attribute c ''name'' = Some nm" by simp
  with assms(3) c(1) have "c = inp" by auto
  with c(2) show ?thesis by simp
qed

lemma LoadMaterials_eq:
  "load_elements C doc (begin_load fn s) = Inr (ms, s1) \<Longrightarrow>
   LoadMaterials C fn doc s = Inr (ms, fix_up s1)"
  by (simp add: LoadMaterials_def)

text \<open>
  A material-typed input whose target the table lacks when the input is read, and which is
  the first input of the document with that target: its request is queued, the first loop
  leaves the input alone, and the second loop sets it to what the final table holds for the
  target.
\<close>

lemma forward_request:
  assumes load: "load_elements C (pre @ e # post) (begin_load file_name s) = Inr (ms, s1)"
    and kids: "Children e = cpre @ inp # cpost"
    and inp: "material_input_to i inp" "Attribute inp ''name'' = Some nm"
    and not_yet: "\<forall>e' \<in> set pre. \<not> declares i e'"
    and first_pre: "\<forall>e' \<in> set pre. \<forall>c \<in> set (Children e'). \<not> material_input_to i c"
    and first_kid: "\<forall>c \<in> set cpre. \<not> material_input_to i c"
    and only_name: "\<forall>c \<in> set cpre \<union> set cpost. Attribute c ''name'' \<noteq> Some nm"
  shows "GetInputValue (heap s1 (next_material s + length pre)) nm = default_input \<and>
    \<lparr>rr_material = next_material s + length pre, rr_input = nm, rr_id = i\<rparr>
       \<in> set (m_resolve_requests s1) \<and>
    type (GetInputValue (heap (fix_up s1) (next_material s + length pre)) nm) = kMaterial \<and>
    mat_value (GetInputValue (heap (fix_up s1) (next_material s + length pre)) nm) =
      lookup_or_null (m_id2mat s1) i"
proof -
  let ?p = "next_material s + length pre"
  let ?s0 = "begin_load file_name s"
  let ?r = "\<lparr>rr_material = ?p, rr_input = nm, rr_id = i\<rparr>"
  have "\<forall>r \<in> set (m_resolve_requests ?s0). rr_material r < next_material ?s0" by simp
  from load_elements_split [OF load this] obtain ms1 sa sb ms3 where
    a: "load_elements C pre ?s0 = Inr (ms1, sa)"
      "LoadMaterial C e sa = Inr (?p, sb)"
      "load_elements C post sb = Inr (ms3, s1)"
      "next_material sa = ?p"
      "heap s1 ?p = heap sb ?p"
      "\<forall>r \<in> set (m_resolve_requests s1). rr_material r = ?p \<longrightarrow>
         r \<in> set (concat (map (pending (m_id2mat sa) ?p) (Children e)))"
    by auto
  note m = LoadMaterial_props [OF a(2)]
  \<comment> \<open>before the record: the id is in neither the table nor the queue\<close>
  have tbl_a: "m_id2mat sa i = None"
    using load_elements_table [OF a(1), of i] not_yet by simp
  have ids_a: "i \<notin> rr_id ` set (m_resolve_requests sa)"
  proof
    assume "i \<in> rr_id ` set (m_resolve_requests sa)"
    then obtain r where r: "r \<in> set (m_resolve_requests sa)" "rr_id r = i" by auto
    from load_elements_requests_new(3) [OF a(1) r(1)] r(2) first_pre show False by auto
  qed
  \<comment> \<open>the record: the input is left alone, the request is queued\<close>
  have val_b: "GetInputValue (heap sb ?p) nm = default_input"
    using LoadMaterial_input [OF a(2) kids inp(2) only_name inp(1)] tbl_a by simp
  have pinp: "pending (m_id2mat sa) ?p inp = [?r]"
    using pending_material_input [of i inp nm "m_id2mat sa" ?p] inp tbl_a by simp
  have pend: "concat (map (pending (m_id2mat sa) ?p) (Children e)) =
      concat (map (pending (m_id2mat sa) ?p) cpre) @ ?r # concat (map (pending (m_id2mat sa) ?p) cpost)"
    using kids pinp by simp
  have "i \<notin> rr_id ` set (concat (map (pending (m_id2mat sa) ?p) cpre))"
    using first_kid pending_member(2) by fastforce
  then have req_b: "?r \<in> set (m_resolve_requests sb)"
    using fold_emplace_first [of ?r "m_resolve_requests sa"
        "concat (map (pending (m_id2mat sa) ?p) cpre)"
        "concat (map (pending (m_id2mat sa) ?p) cpost)"] ids_a m(5) pend
    by simp
  \<comment> \<open>the rest of the document\<close>
  have req_1: "?r \<in> set (m_resolve_requests s1)"
    using load_elements_requests_mono [OF a(3) req_b] .
  have val_1: "GetInputValue (heap s1 ?p) nm = default_input" using a(5) val_b by simp
  \<comment> \<open>the second loop\<close>
  have slot: "\<forall>r' \<in> set (m_resolve_requests s1).
      (rr_material r', rr_input r') = (rr_material ?r, rr_input ?r) \<longrightarrow> rr_id r' = rr_id ?r"
  proof (intro ballI impI)
    fix r' assume r': "r' \<in> set (m_resolve_requests s1)"
      "(rr_material r', rr_input r') = (rr_material ?r, rr_input ?r)"
    then have "r' \<in> set (concat (map (pending (m_id2mat sa) ?p) (cpre @ inp # cpost)))"
      using a(6) kids by simp
    from slot_requests [OF this _ only_name] r'(2)
    have "r' \<in> set (pending (m_id2mat sa) ?p inp)" by simp
    then show "rr_id r' = rr_id ?r"
      using pinp by simp
  qed
  from fold_resolve_slot [OF req_1 slot, of s1]
  have fin: "type (GetInputValue (heap (fix_up s1) ?p) nm) = kMaterial"
    "mat_value (GetInputValue (heap (fix_up s1) ?p) nm) = lookup_or_null (m_id2mat s1) i"
    by (simp_all add: fix_up_def)
  from val_1 req_1 fin show ?thesis by simp
qed

text \<open>Where the last record declaring an id stands, the table ends with its node.\<close>

lemma last_declaration:
  assumes load: "load_elements C (pre @ e # post) (begin_load file_name s) = Inr (ms, s1)"
    and decl: "declares i e"
    and last: "\<forall>e' \<in> set post. \<not> declares i e'"
  shows "m_id2mat s1 i = Some (Some (next_material s + length pre))"
    and "m_id2mat (fix_up s1) i = Some (Some (next_material s + length pre))"
proof -
  let ?p = "next_material s + length pre"
  let ?s0 = "begin_load file_name s"
  have "\<forall>r \<in> set (m_resolve_requests ?s0). rr_material r < next_material ?s0" by simp
  from load_elements_split [OF load this] obtain ms1 sa sb ms3 where
    a: "LoadMaterial C e sa = Inr (?p, sb)"
      "load_elements C post sb = Inr (ms3, s1)"
    by auto
  note m = LoadMaterial_props [OF a(1)]
  have "m_id2mat sb i = Some (Some ?p)"
    using m(4) decl declares_unique by fastforce
  then show 1: "m_id2mat s1 i = Some (Some ?p)"
    using load_elements_table [OF a(2), of i] last by simp
  show "m_id2mat (fix_up s1) i = Some (Some ?p)"
    using fold_resolve_keeps_entry [OF 1] by (simp add: fix_up_def)
qed

text \<open>
  C10 (as amended). Take a record that declares an id no other record of the document
  declares, with a material-typed input targeting that id, where no earlier input of the
  document targets the id and no other input of the record has the same name. Then the input
  is not resolved in the first loop (the record's node is registered only after its inputs
  are read, so the input still has its initial value when the loop ends), its request is in
  the queue, the load returns, and the second loop sets the input to the record's own node.
\<close>

theorem self_reference_resolved_in_second_pass:
  assumes load: "load_elements C (pre @ e # post) (begin_load file_name s) = Inr (ms, s1)"
    and decl: "declares i e"
    and kids: "Children e = cpre @ inp # cpost"
    and inp: "material_input_to i inp" "Attribute inp ''name'' = Some nm"
    and only_decl: "\<forall>e' \<in> set pre \<union> set post. \<not> declares i e'"
    and first_pre: "\<forall>e' \<in> set pre. \<forall>c \<in> set (Children e'). \<not> material_input_to i c"
    and first_kid: "\<forall>c \<in> set cpre. \<not> material_input_to i c"
    and only_name: "\<forall>c \<in> set cpre \<union> set cpost. Attribute c ''name'' \<noteq> Some nm"
  shows "next_material s + length pre \<in> ms \<and>
    GetInputValue (heap s1 (next_material s + length pre)) nm = default_input \<and>
    \<lparr>rr_material = next_material s + length pre, rr_input = nm, rr_id = i\<rparr>
       \<in> set (m_resolve_requests s1) \<and>
    LoadMaterials C file_name (pre @ e # post) s = Inr (ms, fix_up s1) \<and>
    m_id2mat (fix_up s1) i = Some (Some (next_material s + length pre)) \<and>
    type (GetInputValue (heap (fix_up s1) (next_material s + length pre)) nm) = kMaterial \<and>
    mat_value (GetInputValue (heap (fix_up s1) (next_material s + length pre)) nm) =
      Some (next_material s + length pre)"
proof -
  have pre: "\<forall>e' \<in> set pre. \<not> declares i e'" and post: "\<forall>e' \<in> set post. \<not> declares i e'"
    using only_decl by auto
  note f = forward_request [OF load kids inp pre first_pre first_kid only_name]
  note t = last_declaration [OF load decl post]
  have "next_material s + length pre \<in> ms" using load_elements_nodes [OF load] by simp
  then show ?thesis
    using f t LoadMaterials_eq [OF load] by (simp add: lookup_or_null_def)
qed

text \<open>Documents the reader accepts; the base path stays what the head of the load set.\<close>

lemma LoadInput_base_path:
  "LoadInput C p c s = Inr s' \<Longrightarrow> m_base_path s' = m_base_path s"
  by (auto simp: LoadInput_def Let_def dest!: LoadImage_simps
      split: option.splits if_splits prod.splits sum.splits)

lemma load_inputs_base_path:
  "load_inputs C p cs s = Inr s' \<Longrightarrow> m_base_path s' = m_base_path s"
proof (induction cs arbitrary: s)
  case Nil
  then show ?case by simp
next
  case (Cons c cs)
  then obtain s1 where s1: "LoadInput C p c s = Inr s1" "load_inputs C p cs s1 = Inr s'"
    by (auto split: sum.splits)
  from Cons.IH [OF s1(2)] LoadInput_base_path [OF s1(1)] show ?case by simp
qed

lemma create_material_base_path:
  "create_material C e ty s = Inr (p, s1) \<Longrightarrow> m_base_path s1 = m_base_path s"
  by (auto simp: create_material_def Create_def split: if_splits option.splits prod.splits)

lemma LoadMaterial_base_path:
  assumes "LoadMaterial C e s = Inr (p, s')"
  shows "m_base_path s' = m_base_path s"
proof -
  from assms obtain nm ty s1 s4 i where
    a: "create_material C e ty s = Inr (p, s1)"
      "load_inputs C p (Children e)
         (on_material p (\<lambda>m. m\<lparr>IsThin := ((case Attribute e ''thin'' of None \<Rightarrow> [] | Some t \<Rightarrow> t) = ''true'')\<rparr>)
           (on_material p (\<lambda>m. m\<lparr>GetName := nm\<rparr>) s1)) = Inr s4"
      "s' = s4\<lparr>m_id2mat := (m_id2mat s4)(i \<mapsto> Some p)\<rparr>"
    by (auto simp: LoadMaterial_def Let_def split: option.splits sum.splits prod.splits)
  from load_inputs_base_path [OF a(2)] create_material_base_path [OF a(1)] a(3)
  show ?thesis by simp
qed

lemma LoadInput_succeeds:
  "input_ok C (m_base_path s) c \<Longrightarrow> \<exists>s'. LoadInput C p c s = Inr s'"
proof -
  assume ok: "input_ok C (m_base_path s) c"
  then obtain nm v where
    a: "Attribute c ''name'' = Some nm" "Attribute c ''value'' = Some v"
    by (auto simp: input_ok_def split: option.splits)
  with ok have ty: "Attribute c ''type'' = Some ''float4'' \<or>
      (Attribute c ''type'' = Some ''texture'' \<and> can_load C (m_base_path s @ v)) \<or>
      Attribute c ''type'' = Some ''material''"
    by (simp add: input_ok_def)
  from ty show ?thesis
  proof (elim disjE conjE)
    assume "Attribute c ''type'' = Some ''float4''"
    with a show ?thesis by (simp add: LoadInput_def)
  next
    assume "Attribute c ''type'' = Some ''texture''" and "can_load C (m_base_path s @ v)"
    with a show ?thesis
      by (cases "m_name2tex s v") (simp_all add: LoadInput_def LoadImage_def Let_def)
  next
    assume "Attribute c ''type'' = Some ''material''"
    with a show ?thesis
      by (cases "m_id2mat s (atoi_u64 v)") (simp_all add: LoadInput_def Let_def)
  qed
qed

lemma load_inputs_succeeds:
  "list_all (input_ok C (m_base_path s)) cs \<Longrightarrow> \<exists>s'. load_inputs C p cs s = Inr s'"
proof (induction cs arbitrary: s)
  case Nil
  then show ?case by simp
next
  case (Cons c cs)
  then obtain s1 where s1: "LoadInput C p c s = Inr s1"
    using LoadInput_succeeds [of C s c p] by auto
  from Cons.prems LoadInput_base_path [OF s1]
  have "list_all (input_ok C (m_base_path s1)) cs" by simp
  from Cons.IH [OF this] s1 show ?case by simp
qed

lemma LoadMaterial_succeeds:
  "record_ok C (m_base_path s) e \<Longrightarrow> \<exists>p s'. LoadMaterial C e s = Inr (p, s')"
proof -
  assume ok: "record_ok C (m_base_path s) e"
  then obtain nm idstr ty where
    a: "Attribute e ''name'' = Some nm" "Attribute e ''id'' = Some idstr"
      "Attribute e ''type'' = Some ty"
    by (auto simp: record_ok_def)
  from ok a obtain p s1 where c: "create_material C e ty s = Inr (p, s1)"
    by (auto simp: record_ok_def create_material_def Create_def)
  let ?s3 = "on_material p (\<lambda>m. m\<lparr>IsThin := ((case Attribute e ''thin'' of None \<Rightarrow> [] | Some t \<Rightarrow> t) = ''true'')\<rparr>)
         (on_material p (\<lambda>m. m\<lparr>GetName := nm\<rparr>) s1)"
  have "m_base_path ?s3 = m_base_path s" using create_material_base_path [OF c] by simp
  with ok have "list_all (input_ok C (m_base_path ?s3)) (Children e)" by (simp add: record_ok_def)
  from load_inputs_succeeds [OF this] obtain s4 where
    "load_inputs C p (Children e) ?s3 = Inr s4"
    by blast
  with a c show ?thesis by (simp add: LoadMaterial_def Let_def)
qed

lemma load_elements_succeeds:
  "list_all (record_ok C (m_base_path s)) doc \<Longrightarrow> \<exists>ms s1. load_elements C doc s = Inr (ms, s1)"
proof (induction doc arbitrary: s)
  case Nil
  then show ?case by simp
next
  case (Cons e doc)
  then obtain p s1 where s1: "LoadMaterial C e s = Inr (p, s1)"
    using LoadMaterial_succeeds [of C s e] by auto
  from Cons.prems LoadMaterial_base_path [OF s1]
  have "list_all (record_ok C (m_base_path s1)) doc" by simp
  from Cons.IH [OF this] obtain ms s2 where "load_elements C doc s1 = Inr (ms, s2)"
    by blast
  with s1 show ?case by simp
qed

lemma begin_load_base_path [simp]: "m_base_path (begin_load fn s) = base_path_of fn"
  by (simp add: begin_load_def)

lemmas eval_defs =
  LoadMaterials_def begin_load_def LoadMaterial_def create_material_def Create_def Attribute_def
  LoadInput_def LoadImage_def on_material_def set_material_def set_texture_def set_float4_def
  fix_up_def resolve_def example_io_def example_collab_def xml_input_def xml_blend_def xml_simple_def
  atoi_u64_def atoi_def strtol_def isspace_def isdigit_def new_material_def default_input_def
  input_after_def requests_after_def nodes_after_def images_loaded_after_def Let_def
  base_path_of_def find_last_of_def

lemmas doc_defs =
  record_ok_def input_ok_def declares_def material_input_to_def Attribute_def
  xml_input_def xml_blend_def xml_simple_def atoi_u64_def atoi_def strtol_def isspace_def isdigit_def
  example_collab_def base_path_of_def find_last_of_def

text \<open>
  C10 as stated fails: when an earlier record declares the same id, the input of the second
  record (the node at address 11) that targets the record's own id is resolved in the first
  loop, to the earlier node (address 10); nothing is queued.
\<close>

theorem self_reference_counterexample:
  "requests_after (LoadMaterials example_collab ''scene/m.xml''
      [xml_blend ''first'' ''7'' [],
       xml_blend ''second'' ''7'' [xml_input ''base_material'' ''material'' ''7'']] example_io) = Some [] \<and>
   map_option mat_value (input_after (LoadMaterials example_collab ''scene/m.xml''
      [xml_blend ''first'' ''7'' [],
       xml_blend ''second'' ''7'' [xml_input ''base_material'' ''material'' ''7'']] example_io)
        11 ''base_material'') = Some (Some 10)"
  by (simp add: eval_defs)

theorem self_reference_resolved_in_second_pass_witness:
  "map_option mat_value (input_after (LoadMaterials example_collab ''scene/m.xml''
      [xml_blend ''self'' ''7'' [xml_input ''base_material'' ''material'' ''7'']] example_io)
        10 ''base_material'') = Some (Some 10)"
proof -
  let ?inp = "xml_input ''base_material'' ''material'' ''7''"
  let ?e = "xml_blend ''self'' ''7'' [?inp]"
  have "list_all (record_ok example_collab (m_base_path (begin_load ''scene/m.xml'' example_io)))
          ([] @ ?e # [])"
    by (simp add: doc_defs)
  from load_elements_succeeds [OF this] obtain ms s1 where
    load: "load_elements example_collab ([] @ ?e # []) (begin_load ''scene/m.xml'' example_io) = Inr (ms, s1)"
    by blast
  have "LoadMaterials example_collab ''scene/m.xml'' ([] @ ?e # []) example_io = Inr (ms, fix_up s1) \<and>
      mat_value (GetInputValue (heap (fix_up s1) (next_material example_io + length ([] :: XMLElement list))) ''base_material'') =
      Some (next_material example_io + length ([] :: XMLElement list))"
    using self_reference_resolved_in_second_pass [OF load, of 7 "[]" ?inp "[]" "''base_material''"]
    by (simp add: doc_defs)
  then show ?thesis by (simp add: input_after_def example_io_def)
qed

text \<open>
  C3 (as amended). A material-typed input whose target id no record of the document declares
  does not fail the load: a document of records the reader accepts (attributes present,
  supported kinds and input types, texture resources the image store can load) loads, and
  the load returns one node for every record. When that input is the first of the document
  with this target and the only input of its record with its name, the second loop sets it
  to the null material reference.
\<close>

theorem unresolved_reference_loads_as_null:
  assumes ok: "list_all (record_ok C (base_path_of file_name)) (pre @ e # post)"
    and kids: "Children e = cpre @ inp # cpost"
    and inp: "material_input_to i inp" "Attribute inp ''name'' = Some nm"
    and undeclared: "\<forall>e' \<in> set (pre @ e # post). \<not> declares i e'"
  shows "\<exists>s'. LoadMaterials C file_name (pre @ e # post) s =
           Inr ({next_material s ..< next_material s + length (pre @ e # post)}, s') \<and>
         ((\<forall>e' \<in> set pre. \<forall>c \<in> set (Children e'). \<not> material_input_to i c) \<and>
          (\<forall>c \<in> set cpre. \<not> material_input_to i c) \<and>
          (\<forall>c \<in> set cpre \<union> set cpost. Attribute c ''name'' \<noteq> Some nm) \<longrightarrow>
          type (GetInputValue (heap s' (next_material s + length pre)) nm) = kMaterial \<and>
          mat_value (GetInputValue (heap s' (next_material s + length pre)) nm) = None)"
proof -
  from ok have "list_all (record_ok C (m_base_path (begin_load file_name s))) (pre @ e # post)"
    by simp
  from load_elements_succeeds [OF this] obtain ms s1 where
    load: "load_elements C (pre @ e # post) (begin_load file_name s) = Inr (ms, s1)"
    by blast
  have ms: "ms = {next_material s ..< next_material s + length (pre @ e # post)}"
    using load_elements_nodes [OF load] by simp
  have tbl: "m_id2mat s1 i = None"
    using load_elements_table [OF load undeclared] by simp
  have pre: "\<forall>e' \<in> set pre. \<not> declares i e'" using undeclared by simp
  have "type (GetInputValue (heap (fix_up s1) (next_material s + length pre)) nm) = kMaterial \<and>
        mat_value (GetInputValue (heap (fix_up s1) (next_material s + length pre)) nm) = None"
    if "\<forall>e' \<in> set pre. \<forall>c \<in> set (Children e'). \<not> material_input_to i c"
      and "\<forall>c \<in> set cpre. \<not> material_input_to i c"
      and "\<forall>c \<in> set cpre \<union> set cpost. Attribute c ''name'' \<noteq> Some nm"
    using forward_request [OF load kids inp pre that] tbl by (simp add: lookup_or_null_def)
  then show ?thesis using LoadMaterials_eq [OF load] ms by blast
qed

theorem unresolved_reference_loads_as_null_witness:
  "nodes_after (LoadMaterials example_collab ''scene/m.xml''
      [xml_blend ''a'' ''1'' [xml_input ''base_material'' ''material'' ''5'']] example_io) = Some {10 ..< 11} \<and>
   map_option type (input_after (LoadMaterials example_collab ''scene/m.xml''
      [xml_blend ''a'' ''1'' [xml_input ''base_material'' ''material'' ''5'']] example_io)
        10 ''base_material'') = Some kMaterial \<and>
   map_option mat_value (input_after (LoadMaterials example_collab ''scene/m.xml''
      [xml_blend ''a'' ''1'' [xml_input ''base_material'' ''material'' ''5'']] example_io)
        10 ''base_material'') = Some None"
proof -
  let ?inp = "xml_input ''base_material'' ''material'' ''5''"
  let ?e = "xml_blend ''a'' ''1'' [?inp]"
  have ok: "list_all (record_ok example_collab (base_path_of ''scene/m.xml'')) ([] @ ?e # [])"
    by (simp add: doc_defs)
  have un: "\<forall>e' \<in> set ([] @ ?e # []). \<not> declares 5 e'" by (simp add: doc_defs)
  have kids: "Children ?e = [] @ ?inp # []" by (simp add: xml_blend_def)
  have inp: "material_input_to 5 ?inp" "Attribute ?inp ''name'' = Some ''base_material''"
    by (simp_all add: doc_defs)
  have nxt: "next_material example_io = 10" by (simp add: example_io_def)
  from unresolved_reference_loads_as_null [OF ok kids inp un, of example_io]
  obtain s' where
    "LoadMaterials example_collab ''scene/m.xml'' [?e] example_io = Inr ({10 ..< 11}, s')"
    "type (GetInputValue (heap s' 10) ''base_material'') = kMaterial"
    "mat_value (GetInputValue (heap s' 10) ''base_material'') = None"
    using nxt by auto
  then show ?thesis by (simp add: nodes_after_def input_after_def)
qed

text \<open>
  C3 as stated fails: the only record has an input targeting the id 5, which nothing
  declares, and the load returns the node of the record.
\<close>

theorem unresolved_reference_counterexample:
  "nodes_after (LoadMaterials example_collab ''scene/m.xml''
      [xml_blend ''a'' ''1'' [xml_input ''base_material'' ''material'' ''5'']] example_io) = Some {10}"
  by (simp add: eval_defs)



lemma pending_found:
  "material_input_to i c \<Longrightarrow> tbl i \<noteq> None \<Longrightarrow> pending tbl p c = []"
  by (auto simp: pending_def material_input_to_def split: option.splits)

text \<open>
  A material-typed input read when the table holds its target, in a record where no other
  input has its name: it is set in the first loop and keeps that value.
\<close>

lemma backward_reference:
  assumes load: "load_elements C ((pre0 @ e2 # q1) @ e3 # q2) (begin_load file_name s) = Inr (ms, s1)"
    and decl: "declares i e2"
    and last: "\<forall>e' \<in> set q1. \<not> declares i e'"
    and kids: "Children e3 = c1 @ inp # c2"
    and inp: "material_input_to i inp" "Attribute inp ''name'' = Some nm"
    and only_name: "\<forall>c \<in> set c1 \<union> set c2. Attribute c ''name'' \<noteq> Some nm"
  shows "GetInputValue (heap (fix_up s1) (next_material s + length (pre0 @ e2 # q1))) nm =
           default_input\<lparr>type := kMaterial, mat_value := Some (next_material s + length pre0)\<rparr>"
proof -
  let ?p3 = "next_material s + length (pre0 @ e2 # q1)"
  let ?p2 = "next_material s + length pre0"
  let ?s0 = "begin_load file_name s"
  have "\<forall>r \<in> set (m_resolve_requests ?s0). rr_material r < next_material ?s0" by simp
  from load_elements_split [OF load this] obtain ms1 sa sb ms3 where
    a: "load_elements C (pre0 @ e2 # q1) ?s0 = Inr (ms1, sa)"
      "LoadMaterial C e3 sa = Inr (?p3, sb)"
      "heap s1 ?p3 = heap sb ?p3"
      "\<forall>r \<in> set (m_resolve_requests s1). rr_material r = ?p3 \<longrightarrow>
         r \<in> set (concat (map (pending (m_id2mat sa) ?p3) (Children e3)))"
    by auto
  have tbl: "m_id2mat sa i = Some (Some ?p2)"
    using last_declaration(1) [OF a(1) decl last] .
  have val: "GetInputValue (heap s1 ?p3) nm = default_input\<lparr>type := kMaterial, mat_value := Some ?p2\<rparr>"
    using LoadMaterial_input [OF a(2) kids inp(2) only_name inp(1)] tbl a(3) by simp
  have none: "\<forall>r \<in> set (m_resolve_requests s1). (rr_material r, rr_input r) \<noteq> (?p3, nm)"
  proof
    fix r assume r: "r \<in> set (m_resolve_requests s1)"
    show "(rr_material r, rr_input r) \<noteq> (?p3, nm)"
    proof
      assume eq: "(rr_material r, rr_input r) = (?p3, nm)"
      with a(4) r kids
      have "r \<in> set (concat (map (pending (m_id2mat sa) ?p3) (c1 @ inp # c2)))" by simp
      from slot_requests [OF this _ only_name] eq
      have "r \<in> set (pending (m_id2mat sa) ?p3 inp)" by simp
      then show False using pending_found [OF inp(1), of "m_id2mat sa" ?p3] tbl by simp
    qed
  qed
  from fold_resolve_other_slot [OF none, of s1] val show ?thesis by (simp add: fix_up_def)
qed

lemma LoadMaterials_Inr:
  assumes "LoadMaterials C fn doc s = Inr (ms, s')"
  obtains s1 where "load_elements C doc (begin_load fn s) = Inr (ms, s1)" "s' = fix_up s1"
  using assms by (auto simp: LoadMaterials_def split: sum.splits)

text \<open>\<^verbatim>\<open>LoadMaterial\<close> is its first part, the loop over the inputs, and the registration.\<close>

lemma LoadMaterial_start:
  "LoadMaterial C e s =
     (case start_material C e s of
        Inl x \<Rightarrow> Inl x
      | Inr (p, i, s3) \<Rightarrow>
          (case load_inputs C p (Children e) s3 of
             Inl x \<Rightarrow> Inl x
           | Inr s4 \<Rightarrow> Inr (p, s4\<lparr>m_id2mat := (m_id2mat s4)(i \<mapsto> Some p)\<rparr>)))"
  by (simp add: LoadMaterial_def start_material_def Let_def split: option.splits sum.splits prod.splits)

lemma start_material_table:
  "start_material C e s = Inr (p, i, s3) \<Longrightarrow> m_id2mat s3 = m_id2mat s"
  by (auto simp: start_material_def Let_def create_material_def Create_def
      split: option.splits sum.splits prod.splits if_splits)

text \<open>What one round of the second loop stores, when the table holds the target.\<close>

lemma resolve_found:
  "m_id2mat s (rr_id r) = Some found \<Longrightarrow>
   GetInputValue (heap (resolve r s) (rr_material r)) (rr_input r) =
     (GetInputValue (heap s (rr_material r)) (rr_input r))\<lparr>type := kMaterial, mat_value := found\<rparr>"
  by (simp add: resolve_def)

text \<open>
  C9. Two records declare the same id, and no record after the second declares it. Then the
  load returns whenever its first loop does, and the later node is what the id table holds
  for the id at the end of the first loop and at the end of the load. Every round of the
  second loop for a request with this target stores the later node in the input it names.
  And every call of \<^verbatim>\<open>LoadInput\<close> for a material-typed input with this target, in a record
  after the second declaration, is made in a state of the load (after the records before
  it, the start of its own record and the inputs before it) and stores the later node in
  the input.
\<close>

theorem later_declaration_wins:
  assumes load: "load_elements C (pre @ e1 # mid @ e2 # post) (begin_load file_name s) = Inr (ms, s1)"
    and decl1: "declares i e1" and decl2: "declares i e2"
    and last: "\<forall>e' \<in> set post. \<not> declares i e'"
  shows "LoadMaterials C file_name (pre @ e1 # mid @ e2 # post) s = Inr (ms, fix_up s1) \<and>
    m_id2mat s1 i = Some (Some (next_material s + length (pre @ e1 # mid))) \<and>
    m_id2mat (fix_up s1) i = Some (Some (next_material s + length (pre @ e1 # mid))) \<and>
    (\<forall>before r after.
       m_resolve_requests s1 = before @ r # after \<and> rr_id r = i \<longrightarrow>
       fix_up s1 = fold resolve after (resolve r (fold resolve before s1)) \<and>
       GetInputValue (heap (resolve r (fold resolve before s1)) (rr_material r)) (rr_input r) =
         (GetInputValue (heap (fold resolve before s1) (rr_material r)) (rr_input r))
           \<lparr>type := kMaterial, mat_value := Some (next_material s + length (pre @ e1 # mid))\<rparr>) \<and>
    (\<forall>q1 e3 q2 c1 inp c2 nm.
       post = q1 @ e3 # q2 \<and> Children e3 = c1 @ inp # c2 \<and>
       material_input_to i inp \<and> Attribute inp ''name'' = Some nm \<longrightarrow>
       (\<exists>ms' sa p3 j s3 t t'.
          load_elements C (pre @ e1 # mid @ e2 # q1) (begin_load file_name s) = Inr (ms', sa) \<and>
          start_material C e3 sa = Inr (p3, j, s3) \<and>
          load_inputs C p3 c1 s3 = Inr t \<and>
          LoadInput C p3 inp t = Inr t' \<and>
          GetInputValue (heap t' p3) nm =
            (GetInputValue (heap t p3) nm)
              \<lparr>type := kMaterial, mat_value := Some (next_material s + length (pre @ e1 # mid))\<rparr>))"
proof -
  let ?p2 = "next_material s + length (pre @ e1 # mid)"
  let ?s0 = "begin_load file_name s"
  from load have l2: "load_elements C ((pre @ e1 # mid) @ e2 # post) ?s0 = Inr (ms, s1)"
    by simp
  note t = last_declaration [OF l2 decl2 last]
  have 2: "fix_up s1 = fold resolve after (resolve r (fold resolve before s1)) \<and>
       GetInputValue (heap (resolve r (fold resolve before s1)) (rr_material r)) (rr_input r) =
         (GetInputValue (heap (fold resolve before s1) (rr_material r)) (rr_input r))
           \<lparr>type := kMaterial, mat_value := Some ?p2\<rparr>"
    if r: "m_resolve_requests s1 = before @ r # after" "rr_id r = i"
    for before r after
  proof -
    have "m_id2mat (fold resolve before s1) (rr_id r) = Some (Some ?p2)"
      using fold_resolve_keeps_entry [OF t(1), of before] r(2) by simp
    from resolve_found [OF this] r(1) show ?thesis by (simp add: fix_up_def)
  qed
  have 3: "\<exists>ms' sa p3 j s3 t t'.
          load_elements C (pre @ e1 # mid @ e2 # q1) ?s0 = Inr (ms', sa) \<and>
          start_material C e3 sa = Inr (p3, j, s3) \<and>
          load_inputs C p3 c1 s3 = Inr t \<and>
          LoadInput C p3 inp t = Inr t' \<and>
          GetInputValue (heap t' p3) nm =
            (GetInputValue (heap t p3) nm)\<lparr>type := kMaterial, mat_value := Some ?p2\<rparr>"
    if h: "post = q1 @ e3 # q2" "Children e3 = c1 @ inp # c2"
       "material_input_to i inp" "Attribute inp ''name'' = Some nm"
    for q1 e3 q2 c1 inp c2 nm
  proof -
    from l2 h(1)
    have l3: "load_elements C (((pre @ e1 # mid) @ e2 # q1) @ e3 # q2) ?s0 = Inr (ms, s1)"
      by simp
    have "\<forall>r \<in> set (m_resolve_requests ?s0). rr_material r < next_material ?s0" by simp
    from load_elements_split [OF l3 this] obtain ms' sa p3 sb where
      a: "load_elements C ((pre @ e1 # mid) @ e2 # q1) ?s0 = Inr (ms', sa)"
        "LoadMaterial C e3 sa = Inr (p3, sb)"
      by blast
    have "\<forall>e' \<in> set q1. \<not> declares i e'" using last h(1) by simp
    from last_declaration(1) [OF a(1) decl2 this]
    have tbl: "m_id2mat sa i = Some (Some ?p2)" .
    from a(2) obtain j s3 s4 where
      b: "start_material C e3 sa = Inr (p3, j, s3)"
        "load_inputs C p3 (Children e3) s3 = Inr s4"
      by (auto simp: LoadMaterial_start split: sum.splits prod.splits)
    from b(2) h(2) obtain t t' where
      c: "load_inputs C p3 c1 s3 = Inr t" "LoadInput C p3 inp t = Inr t'"
      by (auto simp: load_inputs_append split: sum.splits)
    have "m_id2mat t i = Some (Some ?p2)"
      using load_inputs_frame [OF c(1)] start_material_table [OF b(1)] tbl by simp
    from LoadInput_material_found [OF c(2) h(3) h(4) this] a(1) b(1) c
    show ?thesis by auto
  qed
  from LoadMaterials_eq [OF load] t 2 3 show ?thesis by blast
qed

theorem later_declaration_wins_witness:
  "map_option mat_value (input_after (LoadMaterials example_collab ''scene/m.xml''
      [xml_blend ''fwd'' ''1'' [xml_input ''base_material'' ''material'' ''7''],
       xml_blend ''first'' ''7'' [],
       xml_blend ''second'' ''7'' [],
       xml_blend ''user'' ''2'' [xml_input ''top_material'' ''material'' ''7'']] example_io)
        10 ''base_material'') = Some (Some 12) \<and>
   map_option mat_value (input_after (LoadMaterials example_collab ''scene/m.xml''
      [xml_blend ''fwd'' ''1'' [xml_input ''base_material'' ''material'' ''7''],
       xml_blend ''first'' ''7'' [],
       xml_blend ''second'' ''7'' [],
       xml_blend ''user'' ''2'' [xml_input ''top_material'' ''material'' ''7'']] example_io)
        13 ''top_material'') = Some (Some 12)"
proof -
  let ?fwd = "xml_blend ''fwd'' ''1'' [xml_input ''base_material'' ''material'' ''7'']"
  let ?e1 = "xml_blend ''first'' ''7'' []"
  let ?e2 = "xml_blend ''second'' ''7'' []"
  let ?inp = "xml_input ''top_material'' ''material'' ''7''"
  let ?user = "xml_blend ''user'' ''2'' [?inp]"
  let ?doc = "[?fwd] @ ?e1 # [] @ ?e2 # [?user]"
  let ?res = "LoadMaterials example_collab ''scene/m.xml'' ?doc example_io"
  let ?r = "\<lparr>rr_material = 10, rr_input = ''base_material'', rr_id = 7\<rparr>"
  have "list_all (record_ok example_collab (m_base_path (begin_load ''scene/m.xml'' example_io))) ?doc"
    by (simp add: doc_defs)
  from load_elements_succeeds [OF this] obtain ms s1 where
    load: "load_elements example_collab ?doc (begin_load ''scene/m.xml'' example_io) = Inr (ms, s1)"
    by blast
  have nxt: "next_material example_io = 10" by (simp add: example_io_def)
  have d: "declares 7 ?e1" "declares 7 ?e2" "\<forall>e' \<in> set [?user]. \<not> declares 7 e'"
    by (simp_all add: doc_defs)
  note w = later_declaration_wins [OF load d]
  note res = w [THEN conjunct1]
  note second_loop =
    w [THEN conjunct2, THEN conjunct2, THEN conjunct2, THEN conjunct1, rule_format, of "[]" ?r "[]"]
  have "requests_after ?res = Some [?r]"
    by (simp add: eval_defs)
  with res have q: "m_resolve_requests s1 = [] @ ?r # []"
    by (simp add: requests_after_def fix_up_def)
  have "rr_id ?r = 7" by simp
  with q have "m_resolve_requests s1 = [] @ ?r # [] \<and> rr_id ?r = 7" by simp
  from second_loop [OF this]
  have a: "mat_value (GetInputValue (heap (fix_up s1) 10) ''base_material'') = Some 12"
    using nxt by simp
  have b: "map_option mat_value (input_after ?res 13 ''top_material'') = Some (Some 12)"
    by (simp add: eval_defs)
  from a b res show ?thesis by (simp add: input_after_def)
qed

text \<open>
  The ids are those of the code: \<^verbatim>\<open>atoi\<close> keeps 32 bits, so the id text 4294967297
  declares the id 1, and 2147483648 the id that sign extension gives.
\<close>

lemma atoi_u64_out_of_range:
  "atoi_u64 ''4294967297'' = 1" "atoi_u64 ''2147483648'' = 0xFFFFFFFF80000000"
  by (simp_all add: atoi_u64_def atoi_def strtol_def isspace_def isdigit_def)

text \<open>A resource that the image store cannot load ends the load; no node is returned.\<close>

lemma load_fails_on_missing_image:
  "LoadMaterials example_collab ''scene/m.xml''
      [xml_simple ''a'' ''1'' [xml_input ''albedo'' ''texture'' ''missing.jpg'']] example_io =
     Inl IoFailure"
  by (simp add: eval_defs)

text \<open>
  C4 fails on the code. Two records (nodes 10 and 11) have an input targeting the id 3 of a
  later record (node 12): the queue holds the request of the first only, the input of the
  first is set to node 12, the input of the second still has its initial value after the
  load.
\<close>

theorem same_target_request_dropped:
  "requests_after (LoadMaterials example_collab ''scene/m.xml''
      [xml_blend ''a'' ''1'' [xml_input ''base_material'' ''material'' ''3''],
       xml_blend ''b'' ''2'' [xml_input ''base_material'' ''material'' ''3''],
       xml_blend ''c'' ''3'' []] example_io) =
     Some [\<lparr>rr_material = 10, rr_input = ''base_material'', rr_id = 3\<rparr>] \<and>
   input_after (LoadMaterials example_collab ''scene/m.xml''
      [xml_blend ''a'' ''1'' [xml_input ''base_material'' ''material'' ''3''],
       xml_blend ''b'' ''2'' [xml_input ''base_material'' ''material'' ''3''],
       xml_blend ''c'' ''3'' []] example_io) 10 ''base_material'' =
     Some (default_input\<lparr>type := kMaterial, mat_value := Some 12\<rparr>) \<and>
   input_after (LoadMaterials example_collab ''scene/m.xml''
      [xml_blend ''a'' ''1'' [xml_input ''base_material'' ''material'' ''3''],
       xml_blend ''b'' ''2'' [xml_input ''base_material'' ''material'' ''3''],
       xml_blend ''c'' ''3'' []] example_io) 11 ''base_material'' =
     Some default_input"
  by (simp add: eval_defs)

text \<open>
  C5 fails on the code. Two inputs of one record name the resource \<^verbatim>\<open>wood.jpg\<close>: the
  image store loads it twice, and the two inputs hold different texture objects.
\<close>

theorem same_resource_loaded_twice:
  "images_loaded_after (LoadMaterials example_collab ''scene/m.xml''
      [xml_simple ''a'' ''1''
         [xml_input ''albedo'' ''texture'' ''wood.jpg'',
          xml_input ''normal'' ''texture'' ''wood.jpg'']] example_io) =
     Some [(''scene/wood.jpg'', 20), (''scene/wood.jpg'', 21)] \<and>
   map_option tex_value (input_after (LoadMaterials example_collab ''scene/m.xml''
      [xml_simple ''a'' ''1''
         [xml_input ''albedo'' ''texture'' ''wood.jpg'',
          xml_input ''normal'' ''texture'' ''wood.jpg'']] example_io) 10 ''albedo'') = Some (Some 20) \<and>
   map_option tex_value (input_after (LoadMaterials example_collab ''scene/m.xml''
      [xml_simple ''a'' ''1''
         [xml_input ''albedo'' ''texture'' ''wood.jpg'',
          xml_input ''normal'' ''texture'' ''wood.jpg'']] example_io) 10 ''normal'') = Some (Some 21)"
  by (simp add: eval_defs base_path_of_def find_last_of_def)

subsection \<open>The writer\<close>

lemma first_seen_append: "first_seen ts (xs @ ys) = first_seen (first_seen ts xs) ys"
  by (induction xs arbitrary: ts) auto

lemma first_seen_distinct: "distinct ts \<Longrightarrow> distinct (first_seen ts xs)"
  by (induction xs arbitrary: ts) auto

lemma first_seen_set: "set (first_seen ts xs) = set ts \<union> set xs"
  by (induction xs arbitrary: ts) auto

lemma textures_of_append: "textures_of (a @ b) = textures_of a @ textures_of b"
  by (simp add: textures_of_def)

lemma WriteInput_inv:
  assumes "writer_inv ts s0 s" and "WriteInput C nm v s = Inr (el, s1)"
  shows "el = input_record C nm v \<and> writer_inv (first_seen ts (textures_of [(nm, v)])) s0 s1 \<and>
         m_base_path s1 = m_base_path s"
proof (cases "type v")
  case kFloat4
  with assms show ?thesis by (auto simp: WriteInput_def input_record_def textures_of_def)
next
  case kMaterial
  with assms show ?thesis by (auto simp: WriteInput_def input_record_def textures_of_def)
next
  case kTexture
  show ?thesis
  proof (cases "tex_value v \<in> set ts")
    case True
    with assms kTexture show ?thesis
      by (auto simp: WriteInput_def input_record_def textures_of_def writer_inv_def)
  next
    case False
    with assms kTexture show ?thesis
      by (auto simp: WriteInput_def input_record_def textures_of_def writer_inv_def
          SaveImage_def Let_def fun_eq_iff split: if_splits)
  qed
qed

lemma write_inputs_inv:
  assumes "writer_inv ts s0 s" and "write_inputs C ins s = Inr (els, s1)"
  shows "els = map (\<lambda>(nm, v). input_record C nm v) ins \<and>
         writer_inv (first_seen ts (textures_of ins)) s0 s1 \<and>
         m_base_path s1 = m_base_path s"
  using assms
proof (induction ins arbitrary: ts s els s1)
  case Nil
  then show ?case by (simp add: textures_of_def)
next
  case (Cons a ins)
  obtain nm v where a: "a = (nm, v)" by (cases a)
  from Cons.prems(2) a obtain el sa els' where
    w: "WriteInput C nm v s = Inr (el, sa)"
    and r: "write_inputs C ins sa = Inr (els', s1)"
    and e: "els = el # els'"
    by (auto split: sum.splits prod.splits)
  note i = WriteInput_inv [OF Cons.prems(1) w]
  from i have inv: "writer_inv (first_seen ts (textures_of [(nm, v)])) s0 sa" by simp
  note ih = Cons.IH [OF inv r]
  have "textures_of (a # ins) = textures_of [(nm, v)] @ textures_of ins"
    using a textures_of_append [of "[(nm, v)]" ins] by simp
  then show ?case using i ih e a by (simp add: first_seen_append)
qed

lemma WriteMaterial_inv:
  assumes "writer_inv ts s0 s" and "WriteMaterial C material s = Inr (el, s1)"
  shows "el = material_record C (heap s0) material \<and>
         writer_inv (first_seen ts (textures_of (inputs_to_write (heap s0 material)))) s0 s1 \<and>
         m_base_path s1 = m_base_path s"
proof -
  have h: "heap s = heap s0" using assms(1) by (simp add: writer_inv_def)
  from assms(2) obtain els where
    w: "write_inputs C (inputs_to_write (heap s material)) s = Inr (els, s1)"
    and el: "el = XMLElement ''Material''
                    [(''name'', GetName (heap s material)),
                     (''id'', show_int (ptr_int (Some material))),
                     (''thin'', show_bool (IsThin (heap s material))),
                     (''refraction_link_ior'', show_bool (IsLinkRefractionIOR (heap s material))),
                     (''emission_doublesided'', show_bool (isDoubleSided (heap s material))),
                     (''sss_multyscatter'', show_bool (IsMultiscatter (heap s material))),
                     (''layers'', show_nat (unat (GetLayers (heap s material)))),
                     (''bxdf'', BxdfToString C (GetBxdfType (heap s material)))]
                    els"
    by (auto simp: WriteMaterial_def Let_def split: if_splits prod.splits sum.splits)
  from write_inputs_inv [OF assms(1) w] el h show ?thesis
    by (simp add: material_record_def)
qed

lemma write_materials_inv:
  assumes "writer_inv ts s0 s" and "write_materials C items s = Inr (doc, s1)"
  shows "doc = map (material_record C (heap s0)) (materials_in items) \<and>
         writer_inv (first_seen ts (textures_of (written_inputs (heap s0) items))) s0 s1 \<and>
         m_base_path s1 = m_base_path s"
  using assms
proof (induction C items s arbitrary: ts doc rule: write_materials.induct)
  case (1 C s)
  then show ?case by (simp add: written_inputs_def textures_of_def)
next
  case (2 C items s)
  then show ?case by (simp add: written_inputs_def)
next
  case (3 C material items s)
  from "3.prems"(2) obtain el sa els where
    a: "WriteMaterial C material s = Inr (el, sa)"
      "write_materials C items sa = Inr (els, s1)" "doc = el # els"
    by (auto split: sum.splits prod.splits)
  note m = WriteMaterial_inv [OF "3.prems"(1) a(1)]
  from m have inv: "writer_inv (first_seen ts (textures_of (inputs_to_write (heap s0 material)))) s0 sa"
    by simp
  note ih = "3.IH" [OF a(1) refl inv a(2)]
  have "textures_of (written_inputs (heap s0) (Some material # items)) =
        textures_of (inputs_to_write (heap s0 material)) @ textures_of (written_inputs (heap s0) items)"
    by (simp add: written_inputs_def textures_of_append)
  then show ?case using m ih a(3) by (simp add: first_seen_append)
qed

text \<open>
  C7. In one call of \<^verbatim>\<open>SaveMaterials\<close> that returns, the image store is handed each texture
  asset that a written input references exactly once (the assets in the order of their first
  reference, none twice), under the name made of the asset's address in decimal and
  \<^verbatim>\<open>.jpg\<close>, in the base directory of the file; every texture input record of the document
  carries that name, so later references reuse it; and the result does not depend on what
  the cache held before the call, since the call clears it.
\<close>

theorem SaveMaterials_texture_dedup:
  assumes "SaveMaterials C filename mat_iter s = Inr (doc, s')"
  shows "distinct (first_seen [] (textures_of (written_inputs (heap s) mat_iter))) \<and>
    set (first_seen [] (textures_of (written_inputs (heap s) mat_iter))) =
      set (textures_of (written_inputs (heap s) mat_iter)) \<and>
    saved_images s' =
      saved_images s @
      map (\<lambda>t. (base_path_of filename @ tex_name t, t))
        (first_seen [] (textures_of (written_inputs (heap s) mat_iter))) \<and>
    doc = map (material_record C (heap s)) (materials_in mat_iter) \<and>
    SaveMaterials C filename mat_iter (s\<lparr>m_tex2name := cache\<rparr>) = Inr (doc, s')"
proof -
  let ?s0 = "s\<lparr>m_base_path := base_path_of filename, m_tex2name := Map.empty\<rparr>"
  have inv: "writer_inv [] ?s0 ?s0" by (simp add: writer_inv_def)
  from assms have w: "write_materials C mat_iter ?s0 = Inr (doc, s')"
    by (simp add: SaveMaterials_def)
  note r = write_materials_inv [OF inv w]
  have "SaveMaterials C filename mat_iter (s\<lparr>m_tex2name := cache\<rparr>) = Inr (doc, s')"
    using assms by (simp add: SaveMaterials_def)
  then show ?thesis
    using r by (simp add: writer_inv_def first_seen_set first_seen_distinct)
qed

lemmas write_defs =
  SaveMaterials_def WriteMaterial_def WriteInput_def inputs_to_write_def is_microfacet_def
  SaveImage_def tex_name_def Float4ToString_def show_int_def show_bool_def ptr_int_def
  base_path_of_def find_last_of_def
  example_io_def example_collab_def named_material_def new_material_def default_input_def
  set_texture_def images_saved_after_def document_after_def Let_def

lemma show_nat_digit: "n < 10 \<Longrightarrow> show_nat n = [digit_char n]"
  by (simp add: show_nat.simps)

lemma digit_chars:
  "digit_char 0 = CHR ''0''" "digit_char 1 = CHR ''1''" "digit_char 2 = CHR ''2''"
  "digit_char 7 = CHR ''7''" "digit_char 8 = CHR ''8''" "digit_char (Suc 0) = CHR ''1''"
  by code_simp+

theorem SaveMaterials_texture_dedup_witness:
  "images_saved_after (SaveMaterials example_collab ''out/m.xml'' [Some 1, Some 2] example_io) =
     Some [(''out/7.jpg'', Some 7), (''out/8.jpg'', Some 8)]"
proof -
  let ?res = "SaveMaterials example_collab ''out/m.xml'' [Some 1, Some 2] example_io"
  have "\<exists>doc s'. ?res = Inr (doc, s')"
    by (simp add: write_defs show_nat_digit)
  then obtain doc s' where r: "?res = Inr (doc, s')" by blast
  have t: "textures_of (written_inputs (heap example_io) [Some 1, Some 2]) = [Some 7, Some 7, Some 8]"
    by (simp add: written_inputs_def textures_of_def write_defs)
  have b: "base_path_of ''out/m.xml'' = ''out/''"
    by (simp add: base_path_of_def find_last_of_def)
  have n: "tex_name (Some 7) = ''7.jpg''" "tex_name (Some 8) = ''8.jpg''"
    by (simp_all add: tex_name_def show_nat_digit digit_chars)
  from SaveMaterials_texture_dedup [OF r, of Map.empty]
  have "saved_images s' = [(''out/7.jpg'', Some 7), (''out/8.jpg'', Some 8)]"
    unfolding t b by (simp add: n example_io_def)
  with r show ?thesis by (simp add: images_saved_after_def)
qed


lemma LoadMaterial_written:
  "LoadMaterial C' (material_record C h material) s = Inl NullString"
  by (simp add: LoadMaterial_def Attribute_def material_record_def)

text \<open>
  C2 fails on the code. A record that \<^verbatim>\<open>WriteMaterial\<close> emits has no \<^verbatim>\<open>type\<close> attribute,
  and \<^verbatim>\<open>LoadMaterial\<close> builds a string from that attribute before anything else is
  decided: loading any saved document that holds a material fails, whatever the
  collaborators and the state of the reader.
\<close>

theorem saved_materials_do_not_load:
  assumes "SaveMaterials C filename mat_iter s = Inr (doc, s')"
    and "materials_in mat_iter \<noteq> []"
  shows "LoadMaterials C' file_name doc s'' = Inl NullString"
proof -
  let ?s0 = "s\<lparr>m_base_path := base_path_of filename, m_tex2name := Map.empty\<rparr>"
  have inv: "writer_inv [] ?s0 ?s0" by (simp add: writer_inv_def)
  from assms(1) have w: "write_materials C mat_iter ?s0 = Inr (doc, s')"
    by (simp add: SaveMaterials_def)
  from write_materials_inv [OF inv w]
  have d: "doc = map (material_record C (heap s)) (materials_in mat_iter)" by simp
  from assms(2) obtain m ms where "materials_in mat_iter = m # ms"
    by (cases "materials_in mat_iter") auto
  with d show ?thesis by (simp add: LoadMaterials_def LoadMaterial_written)
qed

theorem saved_materials_do_not_load_witness:
  "document_after (SaveMaterials example_collab ''out/m.xml'' [Some 1] example_io) =
     Some [XMLElement ''Material''
             [(''name'', ''old''), (''id'', ''1''), (''thin'', ''false''),
              (''refraction_link_ior'', ''false''), (''emission_doublesided'', ''false''),
              (''sss_multyscatter'', ''false''), (''layers'', ''0''), (''bxdf'', ''lambert'')]
             [XMLElement ''Input'' [(''name'', ''albedo''), (''type'', ''texture''), (''value'', ''7.jpg'')] [],
              XMLElement ''Input'' [(''name'', ''ior''), (''type'', ''float4''), (''value'', ''0 0 0 0'')] [],
              XMLElement ''Input'' [(''name'', ''fresnel''), (''type'', ''float4''), (''value'', ''0 0 0 0'')] []]] \<and>
   LoadMaterials example_collab ''out/m.xml''
     [XMLElement ''Material''
             [(''name'', ''old''), (''id'', ''1''), (''thin'', ''false''),
              (''refraction_link_ior'', ''false''), (''emission_doublesided'', ''false''),
              (''sss_multyscatter'', ''false''), (''layers'', ''0''), (''bxdf'', ''lambert'')]
             [XMLElement ''Input'' [(''name'', ''albedo''), (''type'', ''texture''), (''value'', ''7.jpg'')] [],
              XMLElement ''Input'' [(''name'', ''ior''), (''type'', ''float4''), (''value'', ''0 0 0 0'')] [],
              XMLElement ''Input'' [(''name'', ''fresnel''), (''type'', ''float4''), (''value'', ''0 0 0 0'')] []]]
     example_io = Inl NullString"
proof -
  let ?res = "SaveMaterials example_collab ''out/m.xml'' [Some 1] example_io"
  let ?doc = "[XMLElement ''Material''
             [(''name'', ''old''), (''id'', ''1''), (''thin'', ''false''),
              (''refraction_link_ior'', ''false''), (''emission_doublesided'', ''false''),
              (''sss_multyscatter'', ''false''), (''layers'', ''0''), (''bxdf'', ''lambert'')]
             [XMLElement ''Input'' [(''name'', ''albedo''), (''type'', ''texture''), (''value'', ''7.jpg'')] [],
              XMLElement ''Input'' [(''name'', ''ior''), (''type'', ''float4''), (''value'', ''0 0 0 0'')] [],
              XMLElement ''Input'' [(''name'', ''fresnel''), (''type'', ''float4''), (''value'', ''0 0 0 0'')] []]]"
  have d: "document_after ?res = Some ?doc"
    by (simp add: write_defs show_nat_digit digit_chars)
  then obtain s' where r: "?res = Inr (?doc, s')"
    by (cases ?res) (auto simp: document_after_def)
  from saved_materials_do_not_load [OF r, of example_collab "''out/m.xml''" example_io] d
  show ?thesis by simp
qed

text \<open>The name determines the asset: different addresses give different names.\<close>

lemma digit_char_inj: "a < 10 \<Longrightarrow> b < 10 \<Longrightarrow> digit_char a = digit_char b \<Longrightarrow> a = b"
proof -
  assume a: "a < 10" and b: "b < 10" and e: "digit_char a = digit_char b"
  from e have "of_char (char_of (48 + a)) = (of_char (char_of (48 + b)) :: nat)"
    by (simp add: digit_char_def)
  then have "(48 + a) mod 256 = (48 + b) mod 256" by simp
  with a b show ?thesis by simp
qed

lemma show_nat_nonempty: "show_nat n \<noteq> []"
  by (subst show_nat.simps) simp

lemma show_nat_inj: "show_nat m = show_nat n \<Longrightarrow> m = n"
proof (induction m arbitrary: n rule: show_nat.induct)
  case (1 m)
  show ?case
  proof (cases "m < 10")
    case True
    then have m: "show_nat m = [digit_char m]" by (simp add: show_nat.simps)
    show ?thesis
    proof (cases "n < 10")
      case n: True
      then have "show_nat n = [digit_char n]" by (simp add: show_nat.simps)
      with m "1.prems" True n show ?thesis by (auto dest: digit_char_inj)
    next
      case False
      then have "show_nat n = show_nat (n div 10) @ [digit_char (n mod 10)]"
        by (subst show_nat.simps) simp
      with m "1.prems" show_nat_nonempty [of "n div 10"] show ?thesis by simp
    qed
  next
    case False
    then have m: "show_nat m = show_nat (m div 10) @ [digit_char (m mod 10)]"
      by (subst show_nat.simps) simp
    show ?thesis
    proof (cases "n < 10")
      case True
      then have "show_nat n = [digit_char n]" by (simp add: show_nat.simps)
      with m "1.prems" show_nat_nonempty [of "m div 10"] show ?thesis by simp
    next
      case n: False
      then have "show_nat n = show_nat (n div 10) @ [digit_char (n mod 10)]"
        by (subst show_nat.simps) simp
      with m "1.prems" have e: "show_nat (m div 10) = show_nat (n div 10)"
        "digit_char (m mod 10) = digit_char (n mod 10)" by simp_all
      from "1.IH" [OF False e(1)] have "m div 10 = n div 10" .
      moreover have "m mod 10 = n mod 10"
        by (rule digit_char_inj [OF _ _ e(2)]) simp_all
      ultimately show ?thesis by (metis div_mult_mod_eq)
    qed
  qed
qed

lemma tex_name_inj:
  "tex_name t = tex_name u \<Longrightarrow> ptr_bits t = ptr_bits u"
proof -
  assume "tex_name t = tex_name u"
  then have "show_nat (unat (ptr_bits t)) = show_nat (unat (ptr_bits u))"
    by (simp add: tex_name_def)
  then have "unat (ptr_bits t) = unat (ptr_bits u)" by (rule show_nat_inj)
  then show ?thesis by (simp add: word_unat_eq_iff)
qed

text \<open>
  The queue stays in ascending id, and a request whose target id is queued already is
  dropped, whatever its material and input.
\<close>

lemma set_emplace_sorted:
  "sorted_wrt (\<lambda>a b. rr_id a < rr_id b) rs \<Longrightarrow>
   sorted_wrt (\<lambda>a b. rr_id a < rr_id b) (set_emplace r rs)"
proof (induction rs)
  case Nil
  then show ?case by simp
next
  case (Cons q qs)
  have "\<forall>x \<in> set (set_emplace r qs). x = r \<or> x \<in> set qs"
    using set_emplace_upper [of r qs] by auto
  with Cons show ?case by (auto simp: not_less)
qed

lemma set_emplace_same_id:
  "sorted_wrt (\<lambda>a b. rr_id a < rr_id b) rs \<Longrightarrow> rr_id r \<in> rr_id ` set rs \<Longrightarrow>
   set_emplace r rs = rs"
  by (induction rs) auto

end
